theory Spec2Isabelle
  imports Complex_Main
begin

section \<open>Values of the platform\<close>

text \<open>
  A JavaScript number, as far as the engine looks at one: the engine never computes with a
  time value, it compares the duration with \<open>Infinity\<close> and tests a start time for
  truthiness.
\<close>

datatype jsnumber = Num real | Infinity | NegInfinity | NaN

definition truthy :: "jsnumber \<Rightarrow> bool" where
  "truthy n = (n \<noteq> Num 0 \<and> n \<noteq> NaN)"

text \<open>A \<open>TimeRanges\<close> object: the ranges in order, each with its start and its end.\<close>

type_synonym time_ranges = "(jsnumber \<times> jsnumber) list"

definition range_end :: "time_ranges \<Rightarrow> nat \<Rightarrow> jsnumber" where
  "range_end r i = snd (r ! i)"

text \<open>
  Indexing an array or a platform track list with a number: \<open>undefined\<close> (here
  \<open>None\<close>) outside \<open>0 .. length - 1\<close>, the element inside.
\<close>

definition item_at :: "'a list \<Rightarrow> int \<Rightarrow> 'a option" where
  "item_at xs i = (if 0 \<le> i \<and> nat i < length xs then Some (xs ! nat i) else None)"

section \<open>DRM protocol selection (static part of NativeAdapter)\<close>

text \<open>
  \<open>NativeAdapter._drmProtocols\<close> and \<open>NativeAdapter._drmProtocol\<close> are static fields,
  shared by every adapter. A protocol is an outside collaborator: its \<open>canPlayDrm\<close> is the
  parameter \<open>probe\<close>. \<open>probed\<close> records the protocols that were asked, in order.
\<close>

record 'p drm_static =
  drmProtocols :: "'p list"
  drmProtocol :: "'p option"
  probed :: "'p list"

fun canPlayDrm_loop ::
  "('p \<Rightarrow> 'd \<Rightarrow> bool) \<Rightarrow> 'd \<Rightarrow> 'p list \<Rightarrow> 'p drm_static \<Rightarrow> bool \<times> 'p drm_static" where
  "canPlayDrm_loop probe drmData [] st = (False, st)"
| "canPlayDrm_loop probe drmData (p # ps) st =
     (let st1 = st\<lparr>probed := probed st @ [p]\<rparr>
      in if probe p drmData then (True, st1\<lparr>drmProtocol := Some p\<rparr>)
         else canPlayDrm_loop probe drmData ps st1)"

definition canPlayDrm :: "('p \<Rightarrow> 'd \<Rightarrow> bool) \<Rightarrow> 'd \<Rightarrow> 'p drm_static \<Rightarrow> bool \<times> 'p drm_static" where
  "canPlayDrm probe drmData st = canPlayDrm_loop probe drmData (drmProtocols st) st"

section \<open>The video element\<close>

datatype text_mode = Disabled | Hidden | Showing

text \<open>
  The cues of a platform text track. The handler tells a \<open>VTTCue\<close> from any other
  \<open>TextTrackCue\<close> by \<open>instanceof\<close>; an object that is neither is \<open>ForeignCue\<close>.
  A \<open>VTTCue\<close> carries more than the three fields (here its \<open>vertical\<close> setting).
\<close>

datatype platform_cue =
    VTTCue jsnumber jsnumber string string
  | TextTrackCue jsnumber jsnumber string
  | ForeignCue

datatype cue_handler = EngineOnCueChange

record video_track_el =
  vt_id :: string
  selected :: bool
  vt_label :: string
  vt_language :: string

record audio_track_el =
  at_id :: string
  enabled :: bool
  at_label :: string
  at_language :: string

record text_track_el =
  tt_kind :: string
  mode :: text_mode
  tt_label :: string
  tt_language :: string
  oncuechange :: "cue_handler option"
  activeCues :: "platform_cue list"

text \<open>
  The attributes of the \<open>HTMLVideoElement\<close> that the engine and the adapter read or write.
  A track list the browser does not have is \<open>None\<close> (the code tests \<open>if (videoTracks)\<close>).
\<close>

record video_element =
  src :: string
  currentTime :: jsnumber
  paused :: bool
  duration :: jsnumber
  seekable :: time_ranges
  buffered :: time_ranges
  offsetWidth :: nat
  offsetHeight :: nat
  videoTracks :: "video_track_el list option"
  audioTracks :: "audio_track_el list option"
  textTracks :: "text_track_el list option"

section \<open>Live streams (NativeAdapter)\<close>

definition getLiveEdge :: "video_element \<Rightarrow> jsnumber" where
  "getLiveEdge el =
     (if length (seekable el) \<noteq> 0 then range_end (seekable el) (length (seekable el) - 1)
      else if length (buffered el) \<noteq> 0 then range_end (buffered el) (length (buffered el) - 1)
      else duration el)"

definition isLive :: "video_element \<Rightarrow> bool" where
  "isLive el = (duration el = Infinity)"

text \<open>
  Modelled from the spec: \<open>super.duration\<close>, the getter of BaseMediaSourceAdapter, which is
  not among the sources; the spec calls it the raw reported duration of the sink.
\<close>

definition base_duration :: "video_element \<Rightarrow> jsnumber" where
  "base_duration el = duration el"

definition adapter_duration :: "video_element \<Rightarrow> jsnumber" where
  "adapter_duration el = (if isLive el then getLiveEdge el else base_duration el)"

section \<open>Sources, tracks and events\<close>

record source =
  sourceId :: string
  url :: string
  mimetype :: string
  sourceBandwidth :: "nat option"
  sourceWidth :: "nat option"
  sourceHeight :: "nat option"

text \<open>
  The \<open>settings\<close> object a track is built from; a field the caller leaves out is
  \<open>None\<close>. A value handed to a selection call is a \<open>VideoTrack\<close>, an \<open>AudioTrack\<close>,
  a \<open>PKTextTrack\<close>, or some other object (which, as any object, may still carry fields).
\<close>

record settings =
  trackId :: "string option"
  index :: int
  active :: bool
  label :: "string option"
  language :: "string option"
  kind :: "string option"
  bandwidth :: "nat option"
  width :: "nat option"
  height :: "nat option"

datatype track =
    VideoTrack settings
  | AudioTrack settings
  | PKTextTrack settings
  | OtherObject settings

fun track_settings :: "track \<Rightarrow> settings" where
  "track_settings (VideoTrack s) = s"
| "track_settings (AudioTrack s) = s"
| "track_settings (PKTextTrack s) = s"
| "track_settings (OtherObject s) = s"

text \<open>
  The canonical cue of the engine. A \<open>VTTCue\<close> is handed on as the object it is, any other
  \<open>TextTrackCue\<close> is rebuilt as \<open>new Cue(startTime, endTime, text)\<close>.
\<close>

datatype cue = PassedVTTCue jsnumber jsnumber string string | Cue jsnumber jsnumber string

fun startTime :: "cue \<Rightarrow> jsnumber" where
  "startTime (PassedVTTCue s e t v) = s"
| "startTime (Cue s e t) = s"

fun endTime :: "cue \<Rightarrow> jsnumber" where
  "endTime (PassedVTTCue s e t v) = e"
| "endTime (Cue s e t) = e"

fun text_of :: "cue \<Rightarrow> string" where
  "text_of (PassedVTTCue s e t v) = t"
| "text_of (Cue s e t) = t"

datatype abr_mode = Manual | Auto

datatype event =
    VIDEO_TRACK_CHANGED track
  | AUDIO_TRACK_CHANGED track
  | TEXT_TRACK_CHANGED track
  | ABR_MODE_CHANGED abr_mode
  | TEXT_CUE_CHANGED "cue list"

datatype html5_event = LOADED_DATA | ERROR | DURATION_CHANGE | SEEKED

text \<open>
  What the engine and the adapter do to the outside, in the order they do it: every write
  to the video element, every call of one of its methods, every event the adapter triggers
  and every event the engine dispatches.
\<close>

datatype action =
    SetSrc string
  | SetCurrentTime jsnumber
  | Play
  | Pause
  | Load
  | SetSelected nat bool
  | SetEnabled nat bool
  | SetMode nat text_mode
  | SetOnCueChange nat "cue_handler option"
  | Trigger event
  | Dispatch event

datatype load_data = Tracks "track list" | EmptyObject

datatype promise_state = Pending | Resolved load_data | Rejected html5_event

text \<open>
  The heap the engine and the adapter share: the video element, the promises created so
  far (a promise is known by its position in \<open>promises\<close>), and the actions so far.
\<close>

record world =
  el :: video_element
  promises :: "promise_state list"
  trace :: "action list"

text \<open>
  What the code takes from outside this file. \<open>browser_name\<close> is \<open>Env.browser.name\<close>;
  \<open>reload\<close> is what the browser does to the element when \<open>src\<close> is assigned or
  \<open>load()\<close> is called (its media element load algorithm);
  \<open>getSuitableSourceForResolution\<close> is the function of \<open>utils/resolution\<close>.
\<close>

record env =
  browser_name :: string
  reload :: "video_element \<Rightarrow> video_element"
  getSuitableSourceForResolution :: "source list option \<Rightarrow> nat \<Rightarrow> nat \<Rightarrow> source option"

subsection \<open>Writes to the video element\<close>

definition act :: "action \<Rightarrow> world \<Rightarrow> world" where
  "act a w = w\<lparr>trace := trace w @ [a]\<rparr>"

definition set_src :: "env \<Rightarrow> string \<Rightarrow> world \<Rightarrow> world" where
  "set_src ev u w = act (SetSrc u) (w\<lparr>el := reload ev ((el w)\<lparr>src := u\<rparr>)\<rparr>)"

definition set_currentTime :: "jsnumber \<Rightarrow> world \<Rightarrow> world" where
  "set_currentTime t w = act (SetCurrentTime t) (w\<lparr>el := (el w)\<lparr>currentTime := t\<rparr>\<rparr>)"

definition el_play :: "world \<Rightarrow> world" where
  "el_play w = act Play (w\<lparr>el := (el w)\<lparr>paused := False\<rparr>\<rparr>)"

definition el_pause :: "world \<Rightarrow> world" where
  "el_pause w = act Pause (w\<lparr>el := (el w)\<lparr>paused := True\<rparr>\<rparr>)"

definition el_load :: "env \<Rightarrow> world \<Rightarrow> world" where
  "el_load ev w = act Load (w\<lparr>el := reload ev (el w)\<rparr>)"

definition set_textTracks :: "text_track_el list \<Rightarrow> world \<Rightarrow> world" where
  "set_textTracks ts w = w\<lparr>el := (el w)\<lparr>textTracks := Some ts\<rparr>\<rparr>"

definition set_mode :: "nat \<Rightarrow> text_mode \<Rightarrow> world \<Rightarrow> world" where
  "set_mode i m w =
     (case textTracks (el w) of
        None \<Rightarrow> w
      | Some ts \<Rightarrow> act (SetMode i m) (set_textTracks (ts[i := (ts ! i)\<lparr>mode := m\<rparr>]) w))"

definition set_oncuechange :: "nat \<Rightarrow> cue_handler option \<Rightarrow> world \<Rightarrow> world" where
  "set_oncuechange i h w =
     (case textTracks (el w) of
        None \<Rightarrow> w
      | Some ts \<Rightarrow> act (SetOnCueChange i h) (set_textTracks (ts[i := (ts ! i)\<lparr>oncuechange := h\<rparr>]) w))"

definition set_selected :: "nat \<Rightarrow> bool \<Rightarrow> world \<Rightarrow> world" where
  "set_selected i b w =
     (case videoTracks (el w) of
        None \<Rightarrow> w
      | Some ts \<Rightarrow> act (SetSelected i b)
          (w\<lparr>el := (el w)\<lparr>videoTracks := Some (ts[i := (ts ! i)\<lparr>selected := b\<rparr>])\<rparr>\<rparr>))"

definition set_enabled :: "nat \<Rightarrow> bool \<Rightarrow> world \<Rightarrow> world" where
  "set_enabled i b w =
     (case audioTracks (el w) of
        None \<Rightarrow> w
      | Some ts \<Rightarrow> act (SetEnabled i b)
          (w\<lparr>el := (el w)\<lparr>audioTracks := Some (ts[i := (ts ! i)\<lparr>enabled := b\<rparr>])\<rparr>\<rparr>))"

section \<open>NativeAdapter\<close>

text \<open>
  The handlers the adapter hands to its event manager, each with what its closure captured:
  the promise of \<open>load\<close>, or the track, position and paused state of a track switch.
\<close>

datatype listener =
    LoadResolve nat
  | LoadReject nat
  | SwitchLoadedData track jsnumber bool
  | SwitchDurationChange jsnumber
  | SwitchSeekedAndroid track bool
  | SwitchSeeked track

record native_adapter =
  sourceObj :: "source option"
  progressiveSources :: "source list option"
  loadPromise :: "nat option"
  listeners :: "(html5_event \<times> listener) list"

text \<open>
  Modelled from the spec: \<open>EventManager.listenOnce\<close>, which is not among the sources. The
  spec calls these subscriptions one-shot: the handler runs at the next occurrence of the
  event and is dropped.
\<close>

definition listenOnce :: "html5_event \<Rightarrow> listener \<Rightarrow> native_adapter \<Rightarrow> native_adapter" where
  "listenOnce e l ad = ad\<lparr>listeners := listeners ad @ [(e, l)]\<rparr>"

text \<open>
  Modelled from the spec: \<open>_trigger\<close> and \<open>_onTrackChanged\<close> of BaseMediaSourceAdapter,
  which is not among the sources. \<open>_trigger\<close> emits the event; \<open>_onTrackChanged\<close> emits
  video-, audio- or text-track-changed with the track, by the class of the track.
\<close>

definition trigger :: "event \<Rightarrow> world \<Rightarrow> world" where
  "trigger e w = act (Trigger e) w"

fun onTrackChanged :: "track \<Rightarrow> world \<Rightarrow> world" where
  "onTrackChanged (VideoTrack s) w = trigger (VIDEO_TRACK_CHANGED (VideoTrack s)) w"
| "onTrackChanged (AudioTrack s) w = trigger (AUDIO_TRACK_CHANGED (AudioTrack s)) w"
| "onTrackChanged (PKTextTrack s) w = trigger (TEXT_TRACK_CHANGED (PKTextTrack s)) w"
| "onTrackChanged (OtherObject s) w = w"

definition isProgressivePlayback :: "native_adapter \<Rightarrow> bool" where
  "isProgressivePlayback ad =
     (case sourceObj ad of Some s \<Rightarrow> mimetype s = ''video/mp4'' | None \<Rightarrow> False)"

definition setProgressiveSource :: "env \<Rightarrow> native_adapter \<Rightarrow> world \<Rightarrow> native_adapter" where
  "setProgressiveSource ev ad w =
     (case getSuitableSourceForResolution ev (progressiveSources ad)
             (offsetWidth (el w)) (offsetHeight (el w)) of
        Some suitableTrack \<Rightarrow> ad\<lparr>sourceObj := Some suitableTrack\<rparr>
      | None \<Rightarrow> ad)"

subsection \<open>Track enumeration\<close>

definition getParsedProgressiveVideoTracks :: "native_adapter \<Rightarrow> track list" where
  "getParsedProgressiveVideoTracks ad =
     (case progressiveSources ad of
        None \<Rightarrow> []
      | Some vs \<Rightarrow>
          map (\<lambda>i. VideoTrack
                 \<lparr>trackId = Some (sourceId (vs ! i)), index = int i,
                  active = (case sourceObj ad of
                              Some s \<Rightarrow> sourceId (vs ! i) = sourceId s | None \<Rightarrow> False),
                  label = None, language = None, kind = None,
                  bandwidth = sourceBandwidth (vs ! i), width = sourceWidth (vs ! i),
                  height = sourceHeight (vs ! i)\<rparr>)
            [0 ..< length vs])"

definition getParsedAdaptiveVideoTracks :: "video_element \<Rightarrow> track list" where
  "getParsedAdaptiveVideoTracks v =
     (case videoTracks v of
        None \<Rightarrow> []
      | Some vs \<Rightarrow>
          map (\<lambda>i. VideoTrack
                 \<lparr>trackId = Some (vt_id (vs ! i)), index = int i, active = selected (vs ! i),
                  label = Some (vt_label (vs ! i)), language = Some (vt_language (vs ! i)),
                  kind = None, bandwidth = None, width = None, height = None\<rparr>)
            [0 ..< length vs])"

definition getParsedVideoTracks :: "native_adapter \<Rightarrow> video_element \<Rightarrow> track list" where
  "getParsedVideoTracks ad v =
     (if isProgressivePlayback ad then getParsedProgressiveVideoTracks ad
      else getParsedAdaptiveVideoTracks v)"

definition getParsedAudioTracks :: "video_element \<Rightarrow> track list" where
  "getParsedAudioTracks v =
     (case audioTracks v of
        None \<Rightarrow> []
      | Some as \<Rightarrow>
          map (\<lambda>i. AudioTrack
                 \<lparr>trackId = Some (at_id (as ! i)), index = int i, active = enabled (as ! i),
                  label = Some (at_label (as ! i)), language = Some (at_language (as ! i)),
                  kind = None, bandwidth = None, width = None, height = None\<rparr>)
            [0 ..< length as])"

definition getParsedTextTracks :: "video_element \<Rightarrow> track list" where
  "getParsedTextTracks v =
     (case textTracks v of
        None \<Rightarrow> []
      | Some ts \<Rightarrow>
          map (\<lambda>i. PKTextTrack
                 \<lparr>trackId = None, index = int i, active = (mode (ts ! i) = Showing),
                  label = Some (tt_label (ts ! i)), language = Some (tt_language (ts ! i)),
                  kind = Some (tt_kind (ts ! i)), bandwidth = None, width = None,
                  height = None\<rparr>)
            [0 ..< length ts])"

definition getParsedTracks :: "native_adapter \<Rightarrow> video_element \<Rightarrow> track list" where
  "getParsedTracks ad v =
     getParsedVideoTracks ad v @ getParsedAudioTracks v @ getParsedTextTracks v"

subsection \<open>load\<close>

text \<open>Settling a promise: \<open>resolve\<close> and \<open>reject\<close> do nothing to a settled promise.\<close>

definition settle :: "nat \<Rightarrow> promise_state \<Rightarrow> world \<Rightarrow> world" where
  "settle p r w =
     (if p < length (promises w) \<and> promises w ! p = Pending
      then w\<lparr>promises := (promises w)[p := r]\<rparr> else w)"

definition NativeAdapter_load ::
  "env \<Rightarrow> jsnumber option \<Rightarrow> native_adapter \<Rightarrow> world \<Rightarrow> nat \<times> native_adapter \<times> world" where
  "NativeAdapter_load ev start ad w =
     (case loadPromise ad of
        Some p \<Rightarrow> (p, ad, w)
      | None \<Rightarrow>
          (let p = length (promises w);
               w0 = w\<lparr>promises := promises w @ [Pending]\<rparr>;
               ad1 = listenOnce LOADED_DATA (LoadResolve p) ad;
               ad2 = listenOnce ERROR (LoadReject p) ad1;
               ad3 = (if isProgressivePlayback ad2 then setProgressiveSource ev ad2 w0 else ad2);
               w1 = (case sourceObj ad3 of
                       None \<Rightarrow> w0
                     | Some s \<Rightarrow>
                         if url s \<noteq> []
                         then trigger (ABR_MODE_CHANGED
                                         (if isProgressivePlayback ad3 then Manual else Auto))
                                (set_src ev (url s) w0)
                         else w0);
               w2 = (case start of
                       None \<Rightarrow> w1
                     | Some t \<Rightarrow> if truthy t then set_currentTime t w1 else w1);
               w3 = el_load ev w2
           in (p, ad3\<lparr>loadPromise := Some p\<rparr>, w3)))"

subsection \<open>Track selection\<close>

definition disableVideoTracks :: "world \<Rightarrow> world" where
  "disableVideoTracks w =
     (case videoTracks (el w) of
        None \<Rightarrow> w
      | Some vs \<Rightarrow> fold (\<lambda>i. set_selected i False) [0 ..< length vs] w)"

definition disableAudioTracks :: "world \<Rightarrow> world" where
  "disableAudioTracks w =
     (case audioTracks (el w) of
        None \<Rightarrow> w
      | Some as \<Rightarrow> fold (\<lambda>i. set_enabled i False) [0 ..< length as] w)"

definition disableTextTracks :: "world \<Rightarrow> world" where
  "disableTextTracks w =
     (case textTracks (el w) of
        None \<Rightarrow> w
      | Some ts \<Rightarrow> fold (\<lambda>i. set_mode i Disabled) [0 ..< length ts] w)"

fun selectProgressiveVideoTrack ::
  "env \<Rightarrow> track \<Rightarrow> native_adapter \<Rightarrow> world \<Rightarrow> native_adapter \<times> world" where
  "selectProgressiveVideoTrack ev (VideoTrack s) ad w =
     (case progressiveSources ad of
        None \<Rightarrow> (ad, w)
      | Some vs \<Rightarrow>
          (case item_at vs (index s) of
             None \<Rightarrow> (ad, w)
           | Some so \<Rightarrow>
               (let ct = currentTime (el w);
                    pz = paused (el w);
                    ad1 = ad\<lparr>sourceObj := Some so\<rparr>;
                    ad2 = listenOnce LOADED_DATA (SwitchLoadedData (VideoTrack s) ct pz) ad1
                in (ad2, set_src ev (url so) w))))"
| "selectProgressiveVideoTrack ev t ad w = (ad, w)"

fun selectAdaptiveVideoTrack :: "track \<Rightarrow> world \<Rightarrow> world" where
  "selectAdaptiveVideoTrack (VideoTrack s) w =
     (case videoTracks (el w) of
        None \<Rightarrow> w
      | Some vs \<Rightarrow>
          (case item_at vs (index s) of
             None \<Rightarrow> w
           | Some t \<Rightarrow>
               onTrackChanged (VideoTrack s)
                 (set_selected (nat (index s)) True (disableVideoTracks w))))"
| "selectAdaptiveVideoTrack t w = w"

definition NativeAdapter_selectVideoTrack ::
  "env \<Rightarrow> track \<Rightarrow> native_adapter \<Rightarrow> world \<Rightarrow> native_adapter \<times> world" where
  "NativeAdapter_selectVideoTrack ev t ad w =
     (if isProgressivePlayback ad then selectProgressiveVideoTrack ev t ad w
      else (ad, selectAdaptiveVideoTrack t w))"

fun NativeAdapter_selectAudioTrack :: "track \<Rightarrow> world \<Rightarrow> world" where
  "NativeAdapter_selectAudioTrack (AudioTrack s) w =
     (case audioTracks (el w) of
        None \<Rightarrow> w
      | Some as \<Rightarrow>
          (case item_at as (index s) of
             None \<Rightarrow> w
           | Some t \<Rightarrow>
               onTrackChanged (AudioTrack s)
                 (set_enabled (nat (index s)) True (disableAudioTracks w))))"
| "NativeAdapter_selectAudioTrack t w = w"

fun NativeAdapter_selectTextTrack :: "track \<Rightarrow> world \<Rightarrow> world" where
  "NativeAdapter_selectTextTrack (PKTextTrack s) w =
     (if kind s = Some ''subtitles'' \<or> kind s = Some ''captions''
      then (case textTracks (el w) of
              None \<Rightarrow> w
            | Some ts \<Rightarrow>
                (case item_at ts (index s) of
                   None \<Rightarrow> w
                 | Some t \<Rightarrow>
                     onTrackChanged (PKTextTrack s)
                       (set_mode (nat (index s)) Hidden (disableTextTracks w))))
      else w)"
| "NativeAdapter_selectTextTrack t w = w"

definition NativeAdapter_hideTextTrack :: "world \<Rightarrow> world" where
  "NativeAdapter_hideTextTrack w = disableTextTracks w"

subsection \<open>Signals of the video element that reach the adapter's listeners\<close>

fun run_listener :: "env \<Rightarrow> html5_event \<Rightarrow> listener \<Rightarrow> native_adapter \<times> world \<Rightarrow> native_adapter \<times> world" where
  "run_listener ev e (LoadResolve p) (ad, w) =
     (ad, settle p (Resolved (Tracks (getParsedTracks ad (el w)))) w)"
| "run_listener ev e (LoadReject p) (ad, w) = (ad, settle p (Rejected e) w)"
| "run_listener ev e (SwitchLoadedData t ct pz) (ad, w) =
     (if browser_name ev = ''Android Browser''
      then (listenOnce SEEKED (SwitchSeekedAndroid t pz)
              (listenOnce DURATION_CHANGE (SwitchDurationChange ct) ad),
            el_play w)
      else (listenOnce SEEKED (SwitchSeeked t) ad,
            (let w1 = set_currentTime ct w in if \<not> pz then el_play w1 else w1)))"
| "run_listener ev e (SwitchDurationChange ct) (ad, w) = (ad, set_currentTime ct w)"
| "run_listener ev e (SwitchSeekedAndroid t pz) (ad, w) =
     (let w1 = onTrackChanged t w in (ad, if pz then el_pause w1 else w1))"
| "run_listener ev e (SwitchSeeked t) (ad, w) = (ad, onTrackChanged t w)"

text \<open>
  The element fires \<open>e\<close>: the one-shot listeners registered for \<open>e\<close> leave the event
  manager and run in the order they were registered.
\<close>

definition fire :: "env \<Rightarrow> html5_event \<Rightarrow> native_adapter \<times> world \<Rightarrow> native_adapter \<times> world" where
  "fire ev e st =
     (let ad = fst st;
          due = filter (\<lambda>x. fst x = e) (listeners ad);
          rest = filter (\<lambda>x. fst x \<noteq> e) (listeners ad)
      in fold (\<lambda>x. run_listener ev e (snd x)) due (ad\<lparr>listeners := rest\<rparr>, snd st))"

section \<open>Html5, the engine\<close>

text \<open>
  The fields of the engine that the modelled methods use. \<open>useNativeTextTrack\<close> is
  \<open>config.playback.useNativeTextTrack\<close>. A key of \<open>showTextTrackFirstTime\<close> that was
  never written reads as \<open>undefined\<close>, which is \<open>None\<close> here.
\<close>

record html5 =
  mediaSourceAdapter :: "native_adapter option"
  showTextTrackFirstTime :: "int \<rightharpoonup> bool"
  useNativeTextTrack :: bool

fun first_not_disabled :: "nat \<Rightarrow> text_track_el list \<Rightarrow> nat option" where
  "first_not_disabled i [] = None"
| "first_not_disabled i (t # ts) =
     (if mode t \<noteq> Disabled then Some i else first_not_disabled (Suc i) ts)"

text \<open>The selected text track element, known by its position in \<open>textTracks\<close>.\<close>

definition getSelectedTextTrackElement :: "world \<Rightarrow> nat option" where
  "getSelectedTextTrackElement w =
     (case textTracks (el w) of None \<Rightarrow> None | Some ts \<Rightarrow> first_not_disabled 0 ts)"

definition removeCueChangeListener :: "world \<Rightarrow> world" where
  "removeCueChangeListener w =
     (case getSelectedTextTrackElement w of
        None \<Rightarrow> w
      | Some i \<Rightarrow> set_oncuechange i None w)"

definition addCueChangeListener :: "track \<Rightarrow> html5 \<Rightarrow> world \<Rightarrow> html5 \<times> world" where
  "addCueChangeListener textTrack eng w =
     (case getSelectedTextTrackElement w of
        None \<Rightarrow> (eng, w)
      | Some i \<Rightarrow>
          if useNativeTextTrack eng then (eng, set_mode i Showing w)
          else
            (let k = index (track_settings textTrack);
                 w1 = set_mode i
                        (if showTextTrackFirstTime eng k = Some True then Hidden else Showing) w;
                 eng1 = eng\<lparr>showTextTrackFirstTime := (showTextTrackFirstTime eng)(k \<mapsto> True)\<rparr>
             in (eng1, set_oncuechange i (Some EngineOnCueChange) w1)))"

definition Html5_selectTextTrack :: "track \<Rightarrow> html5 \<Rightarrow> world \<Rightarrow> html5 \<times> world" where
  "Html5_selectTextTrack textTrack eng w =
     (let w1 = removeCueChangeListener w;
          w2 = (case mediaSourceAdapter eng of
                  None \<Rightarrow> w1
                | Some ad \<Rightarrow> NativeAdapter_selectTextTrack textTrack w1)
      in addCueChangeListener textTrack eng w2)"

definition Html5_hideTextTrack :: "html5 \<Rightarrow> world \<Rightarrow> world" where
  "Html5_hideTextTrack eng w =
     removeCueChangeListener
       (case mediaSourceAdapter eng of
          None \<Rightarrow> w
        | Some ad \<Rightarrow> NativeAdapter_hideTextTrack w)"

text \<open>
  The loop of \<open>_onCueChange\<close> over \<open>textTrack.activeCues\<close>; \<open>acc\<close> is the array
  \<open>activeCues\<close> the handler pushes to.
\<close>

fun collect_cues :: "platform_cue list \<Rightarrow> cue list \<Rightarrow> cue list" where
  "collect_cues [] acc = acc"
| "collect_cues (VTTCue s e t v # cs) acc = collect_cues cs (acc @ [PassedVTTCue s e t v])"
| "collect_cues (TextTrackCue s e t # cs) acc = collect_cues cs (acc @ [Cue s e t])"
| "collect_cues (ForeignCue # cs) acc = collect_cues cs acc"

text \<open>\<open>_onCueChange(e)\<close>, where \<open>e.currentTarget\<close> is the text track at position \<open>i\<close>.\<close>

definition onCueChange :: "nat \<Rightarrow> world \<Rightarrow> world" where
  "onCueChange i w =
     (let w1 = set_mode i Hidden w;
          cues = (case textTracks (el w1) of
                    None \<Rightarrow> []
                  | Some ts \<Rightarrow> collect_cues (activeCues (ts ! i)) [])
      in act (Dispatch (TEXT_CUE_CHANGED cues)) w1)"

text \<open>
  The browser fires \<open>cuechange\<close> at the text track at position \<open>i\<close>: the handler in its
  \<open>oncuechange\<close>, if there is one, runs.
\<close>

definition cuechange :: "nat \<Rightarrow> world \<Rightarrow> world" where
  "cuechange i w =
     (case textTracks (el w) of
        None \<Rightarrow> w
      | Some ts \<Rightarrow>
          (case item_at ts (int i) of
             None \<Rightarrow> w
           | Some t \<Rightarrow>
               (case oncuechange t of
                  None \<Rightarrow> w
                | Some EngineOnCueChange \<Rightarrow> onCueChange i w)))"

definition Html5_selectVideoTrack :: "env \<Rightarrow> track \<Rightarrow> html5 \<Rightarrow> world \<Rightarrow> html5 \<times> world" where
  "Html5_selectVideoTrack ev t eng w =
     (case mediaSourceAdapter eng of
        None \<Rightarrow> (eng, w)
      | Some ad \<Rightarrow>
          (let r = NativeAdapter_selectVideoTrack ev t ad w
           in (eng\<lparr>mediaSourceAdapter := Some (fst r)\<rparr>, snd r)))"

definition Html5_selectAudioTrack :: "track \<Rightarrow> html5 \<Rightarrow> world \<Rightarrow> world" where
  "Html5_selectAudioTrack t eng w =
     (case mediaSourceAdapter eng of
        None \<Rightarrow> w
      | Some ad \<Rightarrow> NativeAdapter_selectAudioTrack t w)"

text \<open>
  \<open>Promise.resolve({})\<close> makes a promise that is resolved from the start.
\<close>

definition Html5_load :: "env \<Rightarrow> jsnumber option \<Rightarrow> html5 \<Rightarrow> world \<Rightarrow> nat \<times> html5 \<times> world" where
  "Html5_load ev start eng w =
     (let w1 = el_load ev w
      in case mediaSourceAdapter eng of
           Some ad \<Rightarrow>
             (let r = NativeAdapter_load ev start ad w1
              in (fst r, eng\<lparr>mediaSourceAdapter := Some (fst (snd r))\<rparr>, snd (snd r)))
         | None \<Rightarrow>
             (length (promises w1), eng, w1\<lparr>promises := promises w1 @ [Resolved EmptyObject]\<rparr>))"

section \<open>Observation of a call and sample states\<close>

text \<open>What the adapter's \<open>load\<close> does to the outside when it is called in \<open>w\<close>.\<close>

definition load_actions :: "env \<Rightarrow> jsnumber option \<Rightarrow> native_adapter \<Rightarrow> world \<Rightarrow> action list" where
  "load_actions ev start ad w =
     drop (length (trace w)) (trace (snd (snd (NativeAdapter_load ev start ad w))))"

text \<open>
  The three fields of a platform cue of one of the two shapes the handler knows, and the
  three fields of a cue of the engine.
\<close>

definition cue_fields :: "platform_cue \<Rightarrow> (jsnumber \<times> jsnumber \<times> string) option" where
  "cue_fields c =
     (case c of
        VTTCue s e t v \<Rightarrow> Some (s, e, t)
      | TextTrackCue s e t \<Rightarrow> Some (s, e, t)
      | ForeignCue \<Rightarrow> None)"

definition canonical :: "cue \<Rightarrow> jsnumber \<times> jsnumber \<times> string" where
  "canonical c = (startTime c, endTime c, text_of c)"

text \<open>
  The browser replaces the active cues of the text track at position \<open>i\<close> and fires
  \<open>cuechange\<close> at it.
\<close>

definition set_activeCues :: "nat \<Rightarrow> platform_cue list \<Rightarrow> world \<Rightarrow> world" where
  "set_activeCues i cs w =
     (case textTracks (el w) of
        None \<Rightarrow> w
      | Some ts \<Rightarrow> set_textTracks (ts[i := (ts ! i)\<lparr>activeCues := cs\<rparr>]) w)"

definition cue_signal :: "nat \<Rightarrow> platform_cue list \<Rightarrow> world \<Rightarrow> world" where
  "cue_signal i cs w = cuechange i (set_activeCues i cs w)"

text \<open>The mode of the text track at position \<open>i\<close>, and the length of the text track list.\<close>

definition mode_of :: "nat \<Rightarrow> world \<Rightarrow> text_mode option" where
  "mode_of i w =
     (case textTracks (el w) of
        None \<Rightarrow> None
      | Some ts \<Rightarrow> map_option mode (item_at ts (int i)))"

definition tt_len :: "world \<Rightarrow> nat option" where
  "tt_len w = map_option length (textTracks (el w))"

text \<open>What can happen to an engine between two activations of a text track.\<close>

datatype engine_call =
    CallSelectTextTrack track
  | CallHideTextTrack
  | CueChange nat "platform_cue list"

fun engine_step :: "engine_call \<Rightarrow> html5 \<times> world \<Rightarrow> html5 \<times> world" where
  "engine_step (CallSelectTextTrack t) (eng, w) = Html5_selectTextTrack t eng w"
| "engine_step CallHideTextTrack (eng, w) = (eng, Html5_hideTextTrack eng w)"
| "engine_step (CueChange i cs) (eng, w) = (eng, cue_signal i cs w)"

text \<open>
  Whether an index lies within a list of the given length; a list that does not exist has
  no index within it.
\<close>

definition in_bounds :: "int \<Rightarrow> nat option \<Rightarrow> bool" where
  "in_bounds i n = (case n of None \<Rightarrow> False | Some m \<Rightarrow> 0 \<le> i \<and> i < int m)"

text \<open>
  The calls and signals an adapter can receive short of \<open>destroy\<close>, and a run of them
  that collects the promises its \<open>load\<close> calls return.
\<close>

datatype adapter_call =
    DoLoad "jsnumber option"
  | DoSelectVideoTrack track
  | DoSelectAudioTrack track
  | DoSelectTextTrack track
  | DoHideTextTrack
  | Fires html5_event

fun adapter_step ::
  "env \<Rightarrow> adapter_call \<Rightarrow> nat list \<times> native_adapter \<times> world \<Rightarrow> nat list \<times> native_adapter \<times> world" where
  "adapter_step ev (DoLoad start) (hs, ad, w) =
     (let r = NativeAdapter_load ev start ad w in (hs @ [fst r], snd r))"
| "adapter_step ev (DoSelectVideoTrack t) (hs, ad, w) = (hs, NativeAdapter_selectVideoTrack ev t ad w)"
| "adapter_step ev (DoSelectAudioTrack t) (hs, ad, w) = (hs, ad, NativeAdapter_selectAudioTrack t w)"
| "adapter_step ev (DoSelectTextTrack t) (hs, ad, w) = (hs, ad, NativeAdapter_selectTextTrack t w)"
| "adapter_step ev DoHideTextTrack (hs, ad, w) = (hs, ad, NativeAdapter_hideTextTrack w)"
| "adapter_step ev (Fires e) (hs, ad, w) = (hs, fire ev e (ad, w))"

text \<open>
  The number of \<open>load()\<close> calls on the element so far, and what a call other than the
  first \<open>load\<close> leaves as it is: the number of promises and the number of loads.
\<close>

definition platform_loads :: "world \<Rightarrow> nat" where
  "platform_loads w = length (filter (\<lambda>a. a = Load) (trace w))"

definition frame :: "world \<Rightarrow> nat \<times> nat" where
  "frame w = (length (promises w), platform_loads w)"

text \<open>The invariant of a run that started with no load promise, \<open>p0\<close> promises and \<open>n0\<close> loads.\<close>

definition load_inv :: "nat \<Rightarrow> nat \<Rightarrow> nat list \<times> native_adapter \<times> world \<Rightarrow> bool" where
  "load_inv p0 n0 st =
     (case st of (hs, ad, w) \<Rightarrow>
        (case loadPromise ad of
           None \<Rightarrow> hs = [] \<and> frame w = (p0, n0)
         | Some p \<Rightarrow> p = p0 \<and> hs \<noteq> [] \<and> set hs \<subseteq> {p0} \<and> snd (frame w) = Suc n0))"

text \<open>
  No track switch is under way: the only listeners still registered are those of \<open>load\<close>.
\<close>

definition is_load_listener :: "listener \<Rightarrow> bool" where
  "is_load_listener l = (case l of LoadResolve p \<Rightarrow> True | LoadReject p \<Rightarrow> True | _ \<Rightarrow> False)"

definition no_switch_pending :: "native_adapter \<Rightarrow> bool" where
  "no_switch_pending ad = list_all (\<lambda>x. is_load_listener (snd x)) (listeners ad)"

text \<open>
  The world after the first two steps of the engine's \<open>selectTextTrack\<close>: the handler is
  removed and the adapter, if there is one, has switched.
\<close>

definition after_switch :: "track \<Rightarrow> html5 \<Rightarrow> world \<Rightarrow> world" where
  "after_switch t eng w =
     (case mediaSourceAdapter eng of
        None \<Rightarrow> removeCueChangeListener w
      | Some ad \<Rightarrow> NativeAdapter_selectTextTrack t (removeCueChangeListener w))"

text \<open>
  A call carries index \<open>k\<close> when it is a \<open>selectTextTrack\<close> whose argument has that
  index, whatever else the argument is.
\<close>

fun carries :: "int \<Rightarrow> engine_call \<Rightarrow> bool" where
  "carries k (CallSelectTextTrack t) = (index (track_settings t) = k)"
| "carries k c = False"

text \<open>
  Sample states: two progressive variants, an element playing at 12.5 seconds with two
  audio tracks and two text tracks, a desktop browser and the Android browser. The sample
  browsers pause the element and rewind it when it is rebound.
\<close>

definition src_low :: source where
  "src_low = \<lparr>sourceId = ''low'', url = ''low.mp4'', mimetype = ''video/mp4'',
              sourceBandwidth = Some 500, sourceWidth = Some 640, sourceHeight = Some 360\<rparr>"

definition src_high :: source where
  "src_high = \<lparr>sourceId = ''high'', url = ''high.mp4'', mimetype = ''video/mp4'',
               sourceBandwidth = Some 2000, sourceWidth = Some 1280, sourceHeight = Some 720\<rparr>"

definition demo_text_track :: "string \<Rightarrow> string \<Rightarrow> text_track_el" where
  "demo_text_track k l =
     \<lparr>tt_kind = k, mode = Disabled, tt_label = l, tt_language = l, oncuechange = None,
      activeCues = []\<rparr>"

definition demo_element :: video_element where
  "demo_element =
     \<lparr>src = ''low.mp4'', currentTime = Num 12.5, paused = False, duration = Num 60,
      seekable = [], buffered = [], offsetWidth = 640, offsetHeight = 360,
      videoTracks = Some [],
      audioTracks = Some [\<lparr>at_id = ''a0'', enabled = True, at_label = ''en'', at_language = ''en''\<rparr>,
                          \<lparr>at_id = ''a1'', enabled = False, at_label = ''fr'', at_language = ''fr''\<rparr>],
      textTracks = Some [demo_text_track ''subtitles'' ''en'', demo_text_track ''captions'' ''fr'']\<rparr>"

definition demo_world :: world where
  "demo_world = \<lparr>el = demo_element, promises = [], trace = []\<rparr>"

definition demo_adapter :: native_adapter where
  "demo_adapter =
     \<lparr>sourceObj = Some src_low, progressiveSources = Some [src_low, src_high],
      loadPromise = None, listeners = []\<rparr>"

definition desktop :: env where
  "desktop =
     \<lparr>browser_name = ''Chrome'',
      reload = (\<lambda>v. v\<lparr>paused := True, currentTime := Num 0\<rparr>),
      getSuitableSourceForResolution =
        (\<lambda>ss w h. case ss of Some (s # rest) \<Rightarrow> Some s | _ \<Rightarrow> None)\<rparr>"

definition android :: env where
  "android = desktop\<lparr>browser_name := ''Android Browser''\<rparr>"

definition demo_engine :: html5 where
  "demo_engine =
     \<lparr>mediaSourceAdapter = Some demo_adapter, showTextTrackFirstTime = Map.empty,
      useNativeTextTrack = False\<rparr>"

definition demo_track :: "int \<Rightarrow> string option \<Rightarrow> settings" where
  "demo_track i k =
     \<lparr>trackId = None, index = i, active = False, label = None, language = None, kind = k,
      bandwidth = None, width = None, height = None\<rparr>"

definition variant1 :: track where
  "variant1 = VideoTrack (demo_track 1 None)"

definition native_engine :: html5 where
  "native_engine = demo_engine\<lparr>useNativeTextTrack := True\<rparr>"

definition subtitles0 :: track where
  "subtitles0 = PKTextTrack (demo_track 0 (Some ''subtitles''))"

definition captions1 :: track where
  "captions1 = PKTextTrack (demo_track 1 (Some ''captions''))"

definition three_cues :: "platform_cue list" where
  "three_cues = [VTTCue (Num 1) (Num 2) ''a'' ''lr'', TextTrackCue (Num 1.5) (Num 3) ''b'',
                 VTTCue (Num 2) (Num 4) ''c'' '''']"

definition shown_tracks :: "text_track_el list" where
  "shown_tracks =
     [(demo_text_track ''subtitles'' ''en'')
        \<lparr>mode := Showing, oncuechange := Some EngineOnCueChange, activeCues := three_cues\<rparr>,
      demo_text_track ''captions'' ''fr'']"

definition shown_world :: world where
  "shown_world = demo_world\<lparr>el := demo_element\<lparr>textTracks := Some shown_tracks\<rparr>\<rparr>"

definition busy_adapter :: native_adapter where
  "busy_adapter =
     demo_adapter\<lparr>loadPromise := Some 0,
                  listeners := [(LOADED_DATA, LoadResolve 0), (ERROR, LoadReject 0)]\<rparr>"

definition busy_world :: world where
  "busy_world = demo_world\<lparr>promises := [Pending]\<rparr>"

definition paused_world :: world where
  "paused_world = busy_world\<lparr>el := demo_element\<lparr>paused := True\<rparr>\<rparr>"

definition stray5 :: track where
  "stray5 = PKTextTrack (demo_track 5 (Some ''captions''))"

section \<open>Properties\<close>

subsection \<open>DRM protocol selection\<close>

lemma canPlayDrm_loop_find:
  "canPlayDrm_loop probe d ps st =
     (case find (\<lambda>p. probe p d) ps of
        Some p \<Rightarrow> (True, st\<lparr>probed := probed st @ takeWhile (\<lambda>q. \<not> probe q d) ps @ [p],
                             drmProtocol := Some p\<rparr>)
      | None \<Rightarrow> (False, st\<lparr>probed := probed st @ ps\<rparr>))"
proof (induction ps arbitrary: st)
  case Nil
  show ?case by simp
next
  case (Cons q qs)
  show ?case
  proof (cases "probe q d")
    case True
    then show ?thesis by (simp add: Let_def)
  next
    case False
    then show ?thesis by (simp add: Let_def Cons.IH split: option.splits)
  qed
qed


text \<open>
  Claim C3. \<open>canPlayDrm\<close> asks the protocols of the ordered list one after the other. The
  first protocol that reports support is bound and no later protocol is asked; the call
  returns true exactly when some protocol of the list supports the data. When none does,
  every protocol has been asked, the call returns false and the bound protocol is the one
  it was before the call: the call binds nothing.
\<close>

theorem canPlayDrm_first_match:
  "fst (canPlayDrm probe d st) = (\<exists>p \<in> set (drmProtocols st). probe p d) \<and>
   (case find (\<lambda>p. probe p d) (drmProtocols st) of
      Some p \<Rightarrow>
        fst (canPlayDrm probe d st) \<and>
        drmProtocol (snd (canPlayDrm probe d st)) = Some p \<and>
        probed (snd (canPlayDrm probe d st)) =
          probed st @ takeWhile (\<lambda>q. \<not> probe q d) (drmProtocols st) @ [p]
    | None \<Rightarrow>
        \<not> fst (canPlayDrm probe d st) \<and>
        drmProtocol (snd (canPlayDrm probe d st)) = drmProtocol st \<and>
        probed (snd (canPlayDrm probe d st)) = probed st @ drmProtocols st)"
proof (cases "find (\<lambda>p. probe p d) (drmProtocols st)")
  case None
  then have "\<not> (\<exists>p \<in> set (drmProtocols st). probe p d)"
    by (simp add: find_None_iff)
  with None show ?thesis
    by (simp add: canPlayDrm_def canPlayDrm_loop_find)
next
  case (Some p)
  then have "\<exists>p \<in> set (drmProtocols st). probe p d"
    by (auto simp: find_Some_iff)
  with Some show ?thesis
    by (simp add: canPlayDrm_def canPlayDrm_loop_find)
qed

theorem canPlayDrm_first_match_witness:
  "fst (canPlayDrm (\<lambda>p d. d < p) (1::nat)
         \<lparr>drmProtocols = [0, 4, 7::nat], drmProtocol = None, probed = []\<rparr>) \<and>
   drmProtocol (snd (canPlayDrm (\<lambda>p d. d < p) (1::nat)
         \<lparr>drmProtocols = [0, 4, 7::nat], drmProtocol = None, probed = []\<rparr>)) = Some 4 \<and>
   probed (snd (canPlayDrm (\<lambda>p d. d < p) (1::nat)
         \<lparr>drmProtocols = [0, 4, 7::nat], drmProtocol = None, probed = []\<rparr>)) = [0, 4] \<and>
   \<not> fst (canPlayDrm (\<lambda>p d. d < p) (9::nat)
         \<lparr>drmProtocols = [0, 4, 7::nat], drmProtocol = Some 7, probed = []\<rparr>) \<and>
   drmProtocol (snd (canPlayDrm (\<lambda>p d. d < p) (9::nat)
         \<lparr>drmProtocols = [0, 4, 7::nat], drmProtocol = Some 7, probed = []\<rparr>)) = Some 7"
  using canPlayDrm_first_match [of "\<lambda>p d. d < p" "1::nat"
          "\<lparr>drmProtocols = [0, 4, 7::nat], drmProtocol = None, probed = []\<rparr>"]
        canPlayDrm_first_match [of "\<lambda>p d. d < p" "9::nat"
          "\<lparr>drmProtocols = [0, 4, 7::nat], drmProtocol = Some 7, probed = []\<rparr>"]
  by simp

subsection \<open>Live streams\<close>

text \<open>
  Claim C5. \<open>isLive\<close> holds exactly when the reported duration is \<open>Infinity\<close>. The live
  edge is the end of the last seekable range when there is a seekable range, else the end
  of the last buffered range when there is a buffered range, else the reported duration.
  While \<open>isLive\<close> holds, the adapter's \<open>duration\<close> getter returns the live edge.
\<close>

theorem live_edge_and_duration:
  "isLive v = (duration v = Infinity) \<and>
   (seekable v \<noteq> [] \<longrightarrow> getLiveEdge v = snd (last (seekable v))) \<and>
   (seekable v = [] \<and> buffered v \<noteq> [] \<longrightarrow> getLiveEdge v = snd (last (buffered v))) \<and>
   (seekable v = [] \<and> buffered v = [] \<longrightarrow> getLiveEdge v = duration v) \<and>
   (isLive v \<longrightarrow> adapter_duration v = getLiveEdge v) \<and>
   (\<not> isLive v \<longrightarrow> adapter_duration v = duration v)"
  by (simp add: isLive_def getLiveEdge_def adapter_duration_def base_duration_def
      range_end_def last_conv_nth)

theorem live_edge_and_duration_witness:
  "isLive (demo_element\<lparr>duration := Infinity, seekable := [(Num 0, Num 20), (Num 25, Num 30)],
                        buffered := [(Num 0, Num 10)]\<rparr>) \<and>
   adapter_duration (demo_element\<lparr>duration := Infinity,
                        seekable := [(Num 0, Num 20), (Num 25, Num 30)],
                        buffered := [(Num 0, Num 10)]\<rparr>) = Num 30 \<and>
   getLiveEdge (demo_element\<lparr>duration := Infinity, buffered := [(Num 0, Num 10)]\<rparr>) = Num 10 \<and>
   getLiveEdge (demo_element\<lparr>duration := Infinity\<rparr>) = Infinity \<and>
   \<not> isLive demo_element \<and> adapter_duration demo_element = Num 60"
  using live_edge_and_duration [of "demo_element\<lparr>duration := Infinity,
            seekable := [(Num 0, Num 20), (Num 25, Num 30)], buffered := [(Num 0, Num 10)]\<rparr>"]
        live_edge_and_duration [of "demo_element\<lparr>duration := Infinity,
            buffered := [(Num 0, Num 10)]\<rparr>"]
        live_edge_and_duration [of "demo_element\<lparr>duration := Infinity\<rparr>"]
        live_edge_and_duration [of demo_element]
  by (simp add: demo_element_def)


subsection \<open>Elementary facts about the writes\<close>

lemma act_simps [simp]:
  "trace (act a w) = trace w @ [a]" "el (act a w) = el w" "promises (act a w) = promises w"
  by (simp_all add: act_def)

lemma set_src_simps [simp]:
  "trace (set_src ev u w) = trace w @ [SetSrc u]"
  "el (set_src ev u w) = reload ev ((el w)\<lparr>src := u\<rparr>)"
  "promises (set_src ev u w) = promises w"
  by (simp_all add: set_src_def)

lemma set_currentTime_simps [simp]:
  "trace (set_currentTime t w) = trace w @ [SetCurrentTime t]"
  "el (set_currentTime t w) = (el w)\<lparr>currentTime := t\<rparr>"
  "promises (set_currentTime t w) = promises w"
  by (simp_all add: set_currentTime_def)

lemma el_play_simps [simp]:
  "trace (el_play w) = trace w @ [Play]"
  "el (el_play w) = (el w)\<lparr>paused := False\<rparr>"
  "promises (el_play w) = promises w"
  by (simp_all add: el_play_def)

lemma el_pause_simps [simp]:
  "trace (el_pause w) = trace w @ [Pause]"
  "el (el_pause w) = (el w)\<lparr>paused := True\<rparr>"
  "promises (el_pause w) = promises w"
  by (simp_all add: el_pause_def)

lemma el_load_simps [simp]:
  "trace (el_load ev w) = trace w @ [Load]"
  "el (el_load ev w) = reload ev (el w)"
  "promises (el_load ev w) = promises w"
  by (simp_all add: el_load_def)

lemma trigger_simps [simp]:
  "trace (trigger e w) = trace w @ [Trigger e]" "el (trigger e w) = el w"
  "promises (trigger e w) = promises w"
  by (simp_all add: trigger_def)

lemma NativeAdapter_load_trace:
  "trace (snd (snd (NativeAdapter_load ev start ad w))) = trace w @ load_actions ev start ad w"
  unfolding load_actions_def
  by (simp add: NativeAdapter_load_def Let_def split: option.splits)

subsection \<open>The engine's load\<close>

text \<open>
  Claim C9. The engine's \<open>load(startTime)\<close> first calls the element's own \<open>load()\<close> and
  then hands the call to the adapter's \<open>load(startTime)\<close>, whose promise, adapter state
  and actions are the result. With no adapter, the element's \<open>load()\<close> is all that happens
  and the call returns a fresh promise that is already resolved with the empty object.
\<close>

theorem Html5_load_order:
  "(case mediaSourceAdapter eng of
      Some ad \<Rightarrow>
        fst (Html5_load ev start eng w) = fst (NativeAdapter_load ev start ad (el_load ev w)) \<and>
        mediaSourceAdapter (fst (snd (Html5_load ev start eng w))) =
          Some (fst (snd (NativeAdapter_load ev start ad (el_load ev w)))) \<and>
        snd (snd (Html5_load ev start eng w)) =
          snd (snd (NativeAdapter_load ev start ad (el_load ev w))) \<and>
        trace (snd (snd (Html5_load ev start eng w))) =
          trace w @ [Load] @ load_actions ev start ad (el_load ev w)
    | None \<Rightarrow>
        fst (snd (Html5_load ev start eng w)) = eng \<and>
        fst (Html5_load ev start eng w) = length (promises w) \<and>
        promises (snd (snd (Html5_load ev start eng w))) = promises w @ [Resolved EmptyObject] \<and>
        trace (snd (snd (Html5_load ev start eng w))) = trace w @ [Load])"
  by (simp add: Html5_load_def Let_def NativeAdapter_load_trace split: option.splits)

theorem Html5_load_order_witness:
  "trace (snd (snd (Html5_load desktop (Some (Num 3)) demo_engine demo_world))) =
     [Load, SetSrc ''low.mp4'', Trigger (ABR_MODE_CHANGED Manual), SetCurrentTime (Num 3), Load] \<and>
   promises (snd (snd (Html5_load desktop None
       (demo_engine\<lparr>mediaSourceAdapter := None\<rparr>) demo_world))) = [Resolved EmptyObject] \<and>
   trace (snd (snd (Html5_load desktop None
       (demo_engine\<lparr>mediaSourceAdapter := None\<rparr>) demo_world))) = [Load]"
  using Html5_load_order [where eng = demo_engine and ev = desktop and start = "Some (Num 3)"
          and w = demo_world]
        Html5_load_order [where eng = "demo_engine\<lparr>mediaSourceAdapter := None\<rparr>"
          and ev = desktop and start = None and w = demo_world]
  by (simp add: demo_engine_def demo_world_def demo_adapter_def desktop_def load_actions_def
      NativeAdapter_load_def Let_def isProgressivePlayback_def setProgressiveSource_def
      listenOnce_def src_low_def src_high_def truthy_def demo_element_def)


subsection \<open>Text tracks: writes, the disabling loop, the selected element\<close>

lemma set_mode_Some:
  "textTracks (el w) = Some ts \<Longrightarrow>
   set_mode i m w = w\<lparr>el := (el w)\<lparr>textTracks := Some (ts[i := (ts ! i)\<lparr>mode := m\<rparr>])\<rparr>,
                      trace := trace w @ [SetMode i m]\<rparr>"
  by (simp add: set_mode_def set_textTracks_def act_def)

lemma set_oncuechange_Some:
  "textTracks (el w) = Some ts \<Longrightarrow>
   set_oncuechange i h w =
     w\<lparr>el := (el w)\<lparr>textTracks := Some (ts[i := (ts ! i)\<lparr>oncuechange := h\<rparr>])\<rparr>,
       trace := trace w @ [SetOnCueChange i h]\<rparr>"
  by (simp add: set_oncuechange_def set_textTracks_def act_def)

lemma disable_fold:
  assumes "textTracks (el w) = Some ts" "k \<le> length ts"
  shows "fold (\<lambda>i. set_mode i Disabled) [0 ..< k] w =
           w\<lparr>el := (el w)\<lparr>textTracks :=
                   Some (map (\<lambda>t. t\<lparr>mode := Disabled\<rparr>) (take k ts) @ drop k ts)\<rparr>,
             trace := trace w @ map (\<lambda>i. SetMode i Disabled) [0 ..< k]\<rparr>"
  using assms
proof (induction k)
  case 0
  then show ?case by simp
next
  case (Suc k)
  then have k: "k < length ts" by simp
  have upd: "(map (\<lambda>t. t\<lparr>mode := Disabled\<rparr>) (take k ts) @ drop k ts)
               [k := ((map (\<lambda>t. t\<lparr>mode := Disabled\<rparr>) (take k ts) @ drop k ts) ! k)\<lparr>mode := Disabled\<rparr>]
             = map (\<lambda>t. t\<lparr>mode := Disabled\<rparr>) (take (Suc k) ts) @ drop (Suc k) ts"
    using k
    by (simp add: list_update_append nth_append take_Suc_conv_app_nth
        Cons_nth_drop_Suc [symmetric])
  show ?case
    using Suc k by (simp add: set_mode_Some upd)
qed

lemma disableTextTracks_Some:
  assumes "textTracks (el w) = Some ts"
  shows "disableTextTracks w =
           w\<lparr>el := (el w)\<lparr>textTracks := Some (map (\<lambda>t. t\<lparr>mode := Disabled\<rparr>) ts)\<rparr>,
             trace := trace w @ map (\<lambda>i. SetMode i Disabled) [0 ..< length ts]\<rparr>"
  using disable_fold [OF assms, of "length ts"] assms
  by (simp add: disableTextTracks_def)

lemma first_not_disabled_at:
  "k < length xs \<Longrightarrow> mode (xs ! k) \<noteq> Disabled \<Longrightarrow> (\<forall>j < k. mode (xs ! j) = Disabled) \<Longrightarrow>
   first_not_disabled i xs = Some (i + k)"
proof (induction xs arbitrary: i k)
  case Nil
  then show ?case by simp
next
  case (Cons x xs)
  show ?case
  proof (cases k)
    case 0
    with Cons.prems show ?thesis by simp
  next
    case (Suc k')
    from Cons.prems Suc have x: "mode x = Disabled" by auto
    from Cons.prems Suc have "k' < length xs" "mode (xs ! k') \<noteq> Disabled"
      "\<forall>j < k'. mode (xs ! j) = Disabled" by auto
    from Cons.IH [OF this, of "Suc i"] x Suc show ?thesis by simp
  qed
qed

lemma first_not_disabled_bound:
  "first_not_disabled i xs = Some j \<Longrightarrow> i \<le> j \<and> j < i + length xs"
  by (induction xs arbitrary: i) (fastforce split: if_splits)+

lemma adapter_select_valid:
  assumes "textTracks (el w) = Some ts"
    "kind s = Some ''subtitles'' \<or> kind s = Some ''captions''"
    "0 \<le> index s" "index s < int (length ts)"
  shows "NativeAdapter_selectTextTrack (PKTextTrack s) w =
           w\<lparr>el := (el w)\<lparr>textTracks :=
                   Some ((map (\<lambda>t. t\<lparr>mode := Disabled\<rparr>) ts)
                           [nat (index s) := (ts ! nat (index s))\<lparr>mode := Hidden\<rparr>])\<rparr>,
             trace := trace w @ map (\<lambda>i. SetMode i Disabled) [0 ..< length ts] @
                        [SetMode (nat (index s)) Hidden, Trigger (TEXT_TRACK_CHANGED (PKTextTrack s))]\<rparr>"
  using assms
  by (auto simp: item_at_def disableTextTracks_Some set_mode_Some trigger_def act_def)

lemma tt_len_Some: "textTracks (el w) = Some ts \<Longrightarrow> tt_len w = Some (length ts)"
  by (simp add: tt_len_def)

lemma tt_len_writes [simp]:
  "tt_len (set_mode i m w) = tt_len w"
  "tt_len (set_oncuechange i h w) = tt_len w"
  "tt_len (act a w) = tt_len w"
  "tt_len (trigger e w) = tt_len w"
  by (simp_all add: tt_len_def set_mode_def set_oncuechange_def set_textTracks_def act_def
      trigger_def split: option.splits)

lemma tt_len_onTrackChanged [simp]: "tt_len (onTrackChanged t w) = tt_len w"
  by (cases t) simp_all

lemma tt_len_fold:
  "(\<And>i w. tt_len (f i w) = tt_len w) \<Longrightarrow> tt_len (fold f xs w) = tt_len w"
  by (induction xs arbitrary: w) simp_all

lemma tt_len_disableTextTracks [simp]: "tt_len (disableTextTracks w) = tt_len w"
  by (simp add: disableTextTracks_def tt_len_fold split: option.splits)

lemma tt_len_adapter_select [simp]: "tt_len (NativeAdapter_selectTextTrack t w) = tt_len w"
  by (cases t) (simp_all split: option.splits)

lemma tt_len_remove [simp]: "tt_len (removeCueChangeListener w) = tt_len w"
  by (simp add: removeCueChangeListener_def split: option.splits)

lemma tt_len_add [simp]: "tt_len (snd (addCueChangeListener t eng w)) = tt_len w"
  by (simp add: addCueChangeListener_def Let_def split: option.splits)

lemma tt_len_Html5_select [simp]: "tt_len (snd (Html5_selectTextTrack t eng w)) = tt_len w"
  by (simp add: Html5_selectTextTrack_def Let_def split: option.splits)

lemma tt_len_Html5_hide [simp]: "tt_len (Html5_hideTextTrack eng w) = tt_len w"
  by (simp add: Html5_hideTextTrack_def NativeAdapter_hideTextTrack_def split: option.splits)

lemma tt_len_onCueChange [simp]: "tt_len (onCueChange i w) = tt_len w"
  by (simp add: onCueChange_def Let_def)

lemma tt_len_cuechange [simp]: "tt_len (cuechange i w) = tt_len w"
  by (simp add: cuechange_def split: option.splits cue_handler.splits)

text \<open>What the engine keeps through a text track selection.\<close>

lemma add_keeps:
  "mediaSourceAdapter (fst (addCueChangeListener t eng w)) = mediaSourceAdapter eng"
  "useNativeTextTrack (fst (addCueChangeListener t eng w)) = useNativeTextTrack eng"
  "showTextTrackFirstTime eng k = Some True \<Longrightarrow>
     showTextTrackFirstTime (fst (addCueChangeListener t eng w)) k = Some True"
  by (simp_all add: addCueChangeListener_def Let_def split: option.splits)

lemma Html5_select_keeps:
  "mediaSourceAdapter (fst (Html5_selectTextTrack t eng w)) = mediaSourceAdapter eng"
  "useNativeTextTrack (fst (Html5_selectTextTrack t eng w)) = useNativeTextTrack eng"
  "showTextTrackFirstTime eng k = Some True \<Longrightarrow>
     showTextTrackFirstTime (fst (Html5_selectTextTrack t eng w)) k = Some True"
  by (simp_all add: Html5_selectTextTrack_def Let_def add_keeps)

lemma remove_shape:
  assumes "textTracks (el w) = Some ts"
  shows "\<exists>ts1. textTracks (el (removeCueChangeListener w)) = Some ts1 \<and> length ts1 = length ts"
  using assms
  by (auto simp: removeCueChangeListener_def set_oncuechange_Some split: option.splits)

lemma selected_after_switch:
  assumes "k < length ts1"
  shows "first_not_disabled 0
           ((map (\<lambda>t. t\<lparr>mode := Disabled\<rparr>) ts1)[k := (ts1 ! k)\<lparr>mode := Hidden\<rparr>]) = Some k"
  using first_not_disabled_at [of k
      "(map (\<lambda>t. t\<lparr>mode := Disabled\<rparr>) ts1)[k := (ts1 ! k)\<lparr>mode := Hidden\<rparr>]" 0] assms
  by simp

lemma add_nonnative:
  assumes "\<not> useNativeTextTrack eng" "getSelectedTextTrackElement w = Some k"
    "textTracks (el w) = Some ts" "k < length ts"
  shows "addCueChangeListener t eng w =
           (eng\<lparr>showTextTrackFirstTime :=
                  (showTextTrackFirstTime eng)(index (track_settings t) \<mapsto> True)\<rparr>,
            w\<lparr>el := (el w)\<lparr>textTracks := Some (ts[k := (ts ! k)
                    \<lparr>mode := (if showTextTrackFirstTime eng (index (track_settings t)) = Some True
                               then Hidden else Showing),
                     oncuechange := Some EngineOnCueChange\<rparr>])\<rparr>,
              trace := trace w @
                [SetMode k (if showTextTrackFirstTime eng (index (track_settings t)) = Some True
                            then Hidden else Showing),
                 SetOnCueChange k (Some EngineOnCueChange)]\<rparr>)"
  using assms
  by (simp add: addCueChangeListener_def Let_def set_mode_Some set_oncuechange_Some)

lemma Html5_select_valid:
  assumes nn: "\<not> useNativeTextTrack eng" and ad: "mediaSourceAdapter eng = Some ad"
    and ts: "textTracks (el w) = Some ts"
    and kd: "kind s = Some ''subtitles'' \<or> kind s = Some ''captions''"
    and lo: "0 \<le> index s" and hi: "index s < int (length ts)"
  shows "\<exists>ts'. textTracks (el (snd (Html5_selectTextTrack (PKTextTrack s) eng w))) = Some ts' \<and>
           length ts' = length ts \<and>
           mode (ts' ! nat (index s)) =
             (if showTextTrackFirstTime eng (index s) = Some True then Hidden else Showing) \<and>
           oncuechange (ts' ! nat (index s)) = Some EngineOnCueChange \<and>
           (\<forall>j < length ts. j \<noteq> nat (index s) \<longrightarrow> mode (ts' ! j) = Disabled) \<and>
           showTextTrackFirstTime (fst (Html5_selectTextTrack (PKTextTrack s) eng w)) (index s)
             = Some True \<and>
           showTextTrackFirstTime (fst (Html5_selectTextTrack (PKTextTrack s) eng w))
             = (showTextTrackFirstTime eng)(index s \<mapsto> True) \<and>
           trace (snd (Html5_selectTextTrack (PKTextTrack s) eng w)) =
             trace (removeCueChangeListener w) @
             map (\<lambda>i. SetMode i Disabled) [0 ..< length ts] @
             [SetMode (nat (index s)) Hidden, Trigger (TEXT_TRACK_CHANGED (PKTextTrack s)),
              SetMode (nat (index s))
                (if showTextTrackFirstTime eng (index s) = Some True then Hidden else Showing),
              SetOnCueChange (nat (index s)) (Some EngineOnCueChange)]"
proof -
  define w1 where "w1 = removeCueChangeListener w"
  from remove_shape [OF ts] obtain ts1 where
    t1: "textTracks (el w1) = Some ts1" and l1: "length ts1 = length ts"
    unfolding w1_def by blast
  define k where "k = nat (index s)"
  have k: "k < length ts1" using lo hi l1 by (simp add: k_def)
  define w2 where "w2 = NativeAdapter_selectTextTrack (PKTextTrack s) w1"
  define ts2 where "ts2 = (map (\<lambda>t. t\<lparr>mode := Disabled\<rparr>) ts1)[k := (ts1 ! k)\<lparr>mode := Hidden\<rparr>]"
  have hi1: "index s < int (length ts1)" using hi l1 by simp
  have w2: "w2 = w1\<lparr>el := (el w1)\<lparr>textTracks := Some ts2\<rparr>,
             trace := trace w1 @ map (\<lambda>i. SetMode i Disabled) [0 ..< length ts1] @
                        [SetMode k Hidden, Trigger (TEXT_TRACK_CHANGED (PKTextTrack s))]\<rparr>"
    unfolding w2_def k_def ts2_def by (rule adapter_select_valid [OF t1 kd lo hi1])
  have t2: "textTracks (el w2) = Some ts2"
    by (simp add: w2)
  have tr2: "trace w2 = trace w1 @ map (\<lambda>i. SetMode i Disabled) [0 ..< length ts] @
                        [SetMode k Hidden, Trigger (TEXT_TRACK_CHANGED (PKTextTrack s))]"
    by (simp add: w2 l1)
  have sel: "getSelectedTextTrackElement w2 = Some k"
    unfolding getSelectedTextTrackElement_def t2 ts2_def
    by (simp add: selected_after_switch [OF k])
  have k2: "k < length ts2" using k by (simp add: ts2_def)
  have res: "Html5_selectTextTrack (PKTextTrack s) eng w = addCueChangeListener (PKTextTrack s) eng w2"
    by (simp add: Html5_selectTextTrack_def Let_def ad w2_def w1_def)
  have l2: "length ts2 = length ts" by (simp add: ts2_def l1)
  show ?thesis
    unfolding res add_nonnative [OF nn sel t2 k2]
    using k2 l2 l1 by (simp add: tr2 k_def [symmetric] w1_def [symmetric] ts2_def)
qed

subsection \<open>The cue-change handler\<close>

lemma collect_cues_canonical:
  "map canonical (collect_cues cs acc) = map canonical acc @ List.map_filter cue_fields cs"
  by (induction cs acc rule: collect_cues.induct)
     (simp_all add: List.map_filter_simps cue_fields_def canonical_def)

lemma collect_cues_length:
  "\<forall>c \<in> set cs. c \<noteq> ForeignCue \<Longrightarrow> length (collect_cues cs acc) = length acc + length cs"
  by (induction cs acc rule: collect_cues.induct) simp_all

lemma onCueChange_trace:
  assumes "textTracks (el w) = Some ts" "i < length ts"
  shows "trace (onCueChange i w) =
           trace w @ [SetMode i Hidden,
                      Dispatch (TEXT_CUE_CHANGED (collect_cues (activeCues (ts ! i)) []))]"
  using assms by (simp add: onCueChange_def set_mode_def set_textTracks_def Let_def)





text \<open>
  Claim C8. On a cue-change signal the handler dispatches exactly one
  \<open>text-cue-changed\<close> event, after setting the track's mode. Its payload holds, in order,
  one cue for every active cue of the two shapes (a \<open>VTTCue\<close>, any other
  \<open>TextTrackCue\<close>), with that cue's start time, end time and text; when every active cue has
  one of the two shapes the payload has as many cues as are active.
\<close>

theorem onCueChange_batch:
  assumes "textTracks (el w) = Some ts" and "i < length ts"
  shows "trace (onCueChange i w) =
           trace w @ [SetMode i Hidden,
                      Dispatch (TEXT_CUE_CHANGED (collect_cues (activeCues (ts ! i)) []))] \<and>
         map canonical (collect_cues (activeCues (ts ! i)) []) =
           List.map_filter cue_fields (activeCues (ts ! i)) \<and>
         ((\<forall>c \<in> set (activeCues (ts ! i)). c \<noteq> ForeignCue) \<longrightarrow>
            length (collect_cues (activeCues (ts ! i)) []) = length (activeCues (ts ! i)))"
  using assms by (simp add: onCueChange_trace collect_cues_canonical collect_cues_length)


theorem onCueChange_batch_witness:
  "trace (onCueChange 0 shown_world) =
     [SetMode 0 Hidden,
      Dispatch (TEXT_CUE_CHANGED [PassedVTTCue (Num 1) (Num 2) ''a'' ''lr'',
                                  Cue (Num 1.5) (Num 3) ''b'',
                                  PassedVTTCue (Num 2) (Num 4) ''c'' ''''])] \<and>
   map canonical (collect_cues three_cues []) =
     [(Num 1, Num 2, ''a''), (Num 1.5, Num 3, ''b''), (Num 2, Num 4, ''c'')] \<and>
   length (collect_cues three_cues []) = 3"
  using onCueChange_batch [of shown_world shown_tracks 0]
  by (simp add: shown_world_def shown_tracks_def demo_world_def three_cues_def
      List.map_filter_simps cue_fields_def)

subsection \<open>Showing a text track once\<close>

lemma tt_len_set_activeCues [simp]: "tt_len (set_activeCues i cs w) = tt_len w"
  by (simp add: set_activeCues_def set_textTracks_def tt_len_def split: option.splits)

lemma tt_len_cue_signal [simp]: "tt_len (cue_signal i cs w) = tt_len w"
  by (simp add: cue_signal_def)

lemma engine_step_keeps:
  "mediaSourceAdapter (fst (engine_step c st)) = mediaSourceAdapter (fst st)"
  "useNativeTextTrack (fst (engine_step c st)) = useNativeTextTrack (fst st)"
  "tt_len (snd (engine_step c st)) = tt_len (snd st)"
  "showTextTrackFirstTime (fst st) k = Some True \<Longrightarrow>
     showTextTrackFirstTime (fst (engine_step c st)) k = Some True"
  by (cases c; cases st; simp add: Html5_select_keeps)+

lemma engine_run_keeps:
  "mediaSourceAdapter (fst (fold engine_step cs st)) = mediaSourceAdapter (fst st) \<and>
   useNativeTextTrack (fst (fold engine_step cs st)) = useNativeTextTrack (fst st) \<and>
   tt_len (snd (fold engine_step cs st)) = tt_len (snd st) \<and>
   (showTextTrackFirstTime (fst st) k = Some True \<longrightarrow>
      showTextTrackFirstTime (fst (fold engine_step cs st)) k = Some True)"
  by (induction cs arbitrary: st) (simp_all add: engine_step_keeps)

lemma add_flag_other:
  "index (track_settings t) \<noteq> k \<Longrightarrow>
   showTextTrackFirstTime (fst (addCueChangeListener t eng w)) k = showTextTrackFirstTime eng k"
  by (simp add: addCueChangeListener_def Let_def split: option.splits)

lemma engine_step_flag_other:
  "\<not> carries k c \<Longrightarrow>
   showTextTrackFirstTime (fst (engine_step c st)) k = showTextTrackFirstTime (fst st) k"
  by (cases c; cases st; simp add: Html5_selectTextTrack_def Let_def add_flag_other)

lemma engine_run_flag_other:
  "list_all (\<lambda>c. \<not> carries k c) cs \<Longrightarrow>
   showTextTrackFirstTime (fst (fold engine_step cs st)) k = showTextTrackFirstTime (fst st) k"
  by (induction cs arbitrary: st) (simp_all add: engine_step_flag_other)

lemma remove_trace:
  "trace (removeCueChangeListener w) =
     trace w @ (case getSelectedTextTrackElement w of
                  None \<Rightarrow> []
                | Some i \<Rightarrow> [SetOnCueChange i None])"
  by (auto simp: removeCueChangeListener_def getSelectedTextTrackElement_def
      set_oncuechange_Some split: option.splits)

text \<open>
  Claim C7, as amended. Without native text tracks and with an adapter bound, the engine
  keeps a flag per track index, empty when the engine is made. For a valid text track of
  index K: if no earlier \<open>selectTextTrack\<close> carried index K, whatever other indices were
  selected, shown, hidden or refused before, the activation leaves track K in showing mode
  and records K, and no other index, as shown; after any further selections, hidings and
  cue-change signals, a later activation of index K leaves track K hidden and writes
  showing mode to no track.
\<close>

theorem text_track_shown_once:
  assumes nn: "\<not> useNativeTextTrack eng" and ad: "mediaSourceAdapter eng = Some ad"
    and new: "showTextTrackFirstTime eng = Map.empty"
    and ts: "textTracks (el w) = Some ts"
    and kd: "kind s = Some ''subtitles'' \<or> kind s = Some ''captions''"
    and kd': "kind s' = Some ''subtitles'' \<or> kind s' = Some ''captions''"
    and lo: "0 \<le> index s" and hi: "index s < int (length ts)" and same: "index s' = index s"
    and first: "list_all (\<lambda>c. \<not> carries (index s) c) before"
  shows "let st0 = fold engine_step before (eng, w);
             st1 = Html5_selectTextTrack (PKTextTrack s) (fst st0) (snd st0);
             st2 = fold engine_step calls st1;
             st3 = Html5_selectTextTrack (PKTextTrack s') (fst st2) (snd st2)
         in mode_of (nat (index s)) (snd st1) = Some Showing \<and>
            showTextTrackFirstTime (fst st1) =
              (showTextTrackFirstTime (fst st0))(index s \<mapsto> True) \<and>
            mode_of (nat (index s)) (snd st3) = Some Hidden \<and>
            (\<forall>i. SetMode i Showing \<notin> set (drop (length (trace (snd st2))) (trace (snd st3))))"
proof -
  define st0 where "st0 = fold engine_step before (eng, w)"
  define st1 where "st1 = Html5_selectTextTrack (PKTextTrack s) (fst st0) (snd st0)"
  define st2 where "st2 = fold engine_step calls st1"
  define st3 where "st3 = Html5_selectTextTrack (PKTextTrack s') (fst st2) (snd st2)"
  define k where "k = nat (index s)"
  have k: "k < length ts" using lo hi by (simp add: k_def)
  have keep0: "mediaSourceAdapter (fst st0) = Some ad" "\<not> useNativeTextTrack (fst st0)"
    "tt_len (snd st0) = Some (length ts)"
    using engine_run_keeps [of before "(eng, w)" "index s"] nn ad tt_len_Some [OF ts]
    by (simp_all add: st0_def)
  have fresh: "showTextTrackFirstTime (fst st0) (index s) \<noteq> Some True"
    using engine_run_flag_other [OF first, of "(eng, w)"] new by (simp add: st0_def)
  from keep0(3) obtain ts0 where t0: "textTracks (el (snd st0)) = Some ts0" "length ts0 = length ts"
    by (auto simp: tt_len_def)
  have hi0: "index s < int (length ts0)" using hi t0 by simp
  from Html5_select_valid [OF keep0(2) keep0(1) t0(1) kd lo hi0] fresh
  obtain ts1 where t1: "textTracks (el (snd st1)) = Some ts1" "length ts1 = length ts0"
      "mode (ts1 ! k) = Showing" "showTextTrackFirstTime (fst st1) (index s) = Some True"
      "showTextTrackFirstTime (fst st1) = (showTextTrackFirstTime (fst st0))(index s \<mapsto> True)"
    unfolding st1_def k_def by auto
  have shown: "mode_of k (snd st1) = Some Showing"
    using t1 t0 k by (simp add: mode_of_def item_at_def)
  have keep: "mediaSourceAdapter (fst st2) = Some ad" "\<not> useNativeTextTrack (fst st2)"
    "tt_len (snd st2) = Some (length ts)"
    "showTextTrackFirstTime (fst st2) (index s') = Some True"
    using engine_run_keeps [of calls st1 "index s"] keep0 t1(4) same
    by (simp_all add: st2_def st1_def Html5_select_keeps)
  from keep(3) obtain ts2 where t2: "textTracks (el (snd st2)) = Some ts2" "length ts2 = length ts"
    by (auto simp: tt_len_def)
  have lo': "0 \<le> index s'" and hi': "index s' < int (length ts2)"
    using lo hi same t2 by simp_all
  from Html5_select_valid [OF keep(2) keep(1) t2(1) kd' lo' hi'] keep(4)
  obtain ts3 where t3: "textTracks (el (snd st3)) = Some ts3" "length ts3 = length ts2"
      "mode (ts3 ! k) = Hidden"
      "trace (snd st3) = trace (removeCueChangeListener (snd st2)) @
         map (\<lambda>i. SetMode i Disabled) [0 ..< length ts2] @
         [SetMode k Hidden, Trigger (TEXT_TRACK_CHANGED (PKTextTrack s')),
          SetMode k Hidden, SetOnCueChange k (Some EngineOnCueChange)]"
    unfolding st3_def k_def same by auto
  have later: "mode_of k (snd st3) = Some Hidden"
    using t3 t2 k by (simp add: mode_of_def item_at_def)
  have quiet: "\<forall>i. SetMode i Showing \<notin> set (drop (length (trace (snd st2))) (trace (snd st3)))"
    by (auto simp: t3(4) remove_trace split: option.splits)
  from shown t1(5) later quiet show ?thesis
    unfolding Let_def st0_def [symmetric] st1_def [symmetric] st2_def [symmetric]
      st3_def [symmetric] k_def [symmetric]
    by blast
qed

theorem text_track_shown_once_witness:
  "mode_of 0 (snd (Html5_selectTextTrack subtitles0
      (fst (fold engine_step [CallSelectTextTrack captions1, CueChange 1 three_cues,
                              CallSelectTextTrack stray5, CallHideTextTrack]
              (demo_engine, demo_world)))
      (snd (fold engine_step [CallSelectTextTrack captions1, CueChange 1 three_cues,
                              CallSelectTextTrack stray5, CallHideTextTrack]
              (demo_engine, demo_world))))) = Some Showing \<and>
   mode_of 0 (snd (Html5_selectTextTrack subtitles0
      (fst (fold engine_step [CueChange 0 three_cues, CallSelectTextTrack captions1, CallHideTextTrack]
        (Html5_selectTextTrack subtitles0
          (fst (fold engine_step [CallSelectTextTrack captions1, CueChange 1 three_cues,
                                  CallSelectTextTrack stray5, CallHideTextTrack]
                  (demo_engine, demo_world)))
          (snd (fold engine_step [CallSelectTextTrack captions1, CueChange 1 three_cues,
                                  CallSelectTextTrack stray5, CallHideTextTrack]
                  (demo_engine, demo_world))))))
      (snd (fold engine_step [CueChange 0 three_cues, CallSelectTextTrack captions1, CallHideTextTrack]
        (Html5_selectTextTrack subtitles0
          (fst (fold engine_step [CallSelectTextTrack captions1, CueChange 1 three_cues,
                                  CallSelectTextTrack stray5, CallHideTextTrack]
                  (demo_engine, demo_world)))
          (snd (fold engine_step [CallSelectTextTrack captions1, CueChange 1 three_cues,
                                  CallSelectTextTrack stray5, CallHideTextTrack]
                  (demo_engine, demo_world)))))))) = Some Hidden"
proof -
  have h: "\<not> useNativeTextTrack demo_engine" "mediaSourceAdapter demo_engine = Some demo_adapter"
    "showTextTrackFirstTime demo_engine = Map.empty"
    "textTracks (el demo_world) =
       Some [demo_text_track ''subtitles'' ''en'', demo_text_track ''captions'' ''fr'']"
    "kind (demo_track 0 (Some ''subtitles'')) = Some ''subtitles'' \<or>
     kind (demo_track 0 (Some ''subtitles'')) = Some ''captions''"
    "0 \<le> index (demo_track 0 (Some ''subtitles''))"
    "index (demo_track 0 (Some ''subtitles''))
       < int (length [demo_text_track ''subtitles'' ''en'', demo_text_track ''captions'' ''fr''])"
    "index (demo_track 0 (Some ''subtitles'')) = index (demo_track 0 (Some ''subtitles''))"
    "list_all (\<lambda>c. \<not> carries (index (demo_track 0 (Some ''subtitles''))) c)
       [CallSelectTextTrack captions1, CueChange 1 three_cues,
        CallSelectTextTrack stray5, CallHideTextTrack]"
    by (simp_all add: demo_engine_def demo_world_def demo_element_def demo_track_def
        captions1_def stray5_def)
  have idx: "nat (index (demo_track 0 (Some ''subtitles''))) = 0"
    by (simp add: demo_track_def)
  note t = text_track_shown_once [OF h(1,2,3,4,5,5,6,7,8,9),
      where calls = "[CueChange 0 three_cues, CallSelectTextTrack captions1, CallHideTextTrack]"]
  from t [unfolded Let_def idx] show ?thesis
    unfolding subtitles0_def by blast
qed

theorem text_track_native_counterexample:
  "showTextTrackFirstTime (fst (Html5_selectTextTrack subtitles0 native_engine demo_world)) 0 = None \<and>
   trace (snd (Html5_selectTextTrack subtitles0
            (fst (Html5_selectTextTrack subtitles0 native_engine demo_world))
            (snd (Html5_selectTextTrack subtitles0 native_engine demo_world)))) =
     trace (snd (Html5_selectTextTrack subtitles0 native_engine demo_world)) @
     [SetOnCueChange 0 None, SetMode 0 Disabled, SetMode 1 Disabled, SetMode 0 Hidden,
      Trigger (TEXT_TRACK_CHANGED subtitles0), SetMode 0 Showing] \<and>
   mode_of 0 (snd (Html5_selectTextTrack subtitles0
            (fst (Html5_selectTextTrack subtitles0 native_engine demo_world))
            (snd (Html5_selectTextTrack subtitles0 native_engine demo_world)))) = Some Showing"
  by code_simp

subsection \<open>Hidden after a cue change\<close>




subsection \<open>The order of a text track selection\<close>

lemma adapter_select_trace:
  "\<exists>sw. trace (NativeAdapter_selectTextTrack t w) = trace w @ sw \<and>
        (\<forall>a \<in> set sw. \<forall>i h. a \<noteq> SetOnCueChange i h)"
proof (cases t)
  case (PKTextTrack s)
  show ?thesis
  proof (cases "(kind s = Some ''subtitles'' \<or> kind s = Some ''captions'') \<and>
                (\<exists>ts. textTracks (el w) = Some ts \<and> 0 \<le> index s \<and> index s < int (length ts))")
    case True
    then obtain ts where "textTracks (el w) = Some ts"
        "kind s = Some ''subtitles'' \<or> kind s = Some ''captions''"
        "0 \<le> index s" "index s < int (length ts)"
      by blast
    from adapter_select_valid [OF this] PKTextTrack show ?thesis
      by auto
  next
    case False
    then have "NativeAdapter_selectTextTrack t w = w"
      using PKTextTrack by (auto simp: item_at_def split: option.splits)
    then show ?thesis by simp
  qed
qed simp_all

lemma add_trace:
  "trace (snd (addCueChangeListener t eng w)) =
     trace w @
       (case getSelectedTextTrackElement w of
          None \<Rightarrow> []
        | Some j \<Rightarrow>
            if useNativeTextTrack eng then [SetMode j Showing]
            else [SetMode j (if showTextTrackFirstTime eng (index (track_settings t)) = Some True
                             then Hidden else Showing),
                  SetOnCueChange j (Some EngineOnCueChange)])"
  by (auto simp: addCueChangeListener_def getSelectedTextTrackElement_def Let_def
      set_mode_Some set_oncuechange_Some split: option.splits)

text \<open>
  Claim C6, as amended. Every call of the engine's \<open>selectTextTrack\<close> acts in this order:
  it clears the cue-change handler of the first text track that is not disabled, if there
  is one; then the adapter, if there is one, switches, which neither clears nor installs a
  handler; then, if a text track is not disabled after the switch, the engine sets its
  mode and, unless native text tracks are configured, installs its handler on it. With
  native text tracks it installs none.
\<close>

theorem selectTextTrack_order:
  "Html5_selectTextTrack t eng w = addCueChangeListener t eng (after_switch t eng w) \<and>
   trace (removeCueChangeListener w) =
     trace w @ (case getSelectedTextTrackElement w of
                  None \<Rightarrow> []
                | Some i \<Rightarrow> [SetOnCueChange i None]) \<and>
   (\<exists>sw. trace (after_switch t eng w) = trace (removeCueChangeListener w) @ sw \<and>
         (\<forall>a \<in> set sw. \<forall>i h. a \<noteq> SetOnCueChange i h)) \<and>
   trace (snd (Html5_selectTextTrack t eng w)) =
     trace (after_switch t eng w) @
       (case getSelectedTextTrackElement (after_switch t eng w) of
          None \<Rightarrow> []
        | Some j \<Rightarrow>
            if useNativeTextTrack eng then [SetMode j Showing]
            else [SetMode j (if showTextTrackFirstTime eng (index (track_settings t)) = Some True
                             then Hidden else Showing),
                  SetOnCueChange j (Some EngineOnCueChange)])"
proof -
  have sw: "\<exists>sw. trace (after_switch t eng w) = trace (removeCueChangeListener w) @ sw \<and>
         (\<forall>a \<in> set sw. \<forall>i h. a \<noteq> SetOnCueChange i h)"
    using adapter_select_trace [of t "removeCueChangeListener w"]
    by (cases "mediaSourceAdapter eng") (simp_all add: after_switch_def)
  have res: "Html5_selectTextTrack t eng w = addCueChangeListener t eng (after_switch t eng w)"
    by (simp add: Html5_selectTextTrack_def after_switch_def Let_def split: option.splits)
  have tr: "trace (snd (addCueChangeListener t eng (after_switch t eng w))) =
     trace (after_switch t eng w) @
       (case getSelectedTextTrackElement (after_switch t eng w) of
          None \<Rightarrow> []
        | Some j \<Rightarrow>
            if useNativeTextTrack eng then [SetMode j Showing]
            else [SetMode j (if showTextTrackFirstTime eng (index (track_settings t)) = Some True
                             then Hidden else Showing),
                  SetOnCueChange j (Some EngineOnCueChange)])"
    by (rule add_trace)
  from res sw tr remove_trace [of w] show ?thesis
    by (simp only: simp_thms)
qed

theorem selectTextTrack_order_witness:
  "trace (snd (Html5_selectTextTrack captions1
                 (fst (Html5_selectTextTrack subtitles0 demo_engine demo_world))
                 (snd (Html5_selectTextTrack subtitles0 demo_engine demo_world)))) =
   trace (snd (Html5_selectTextTrack subtitles0 demo_engine demo_world)) @
     [SetOnCueChange 0 None] @
     [SetMode 0 Disabled, SetMode 1 Disabled, SetMode 1 Hidden, Trigger (TEXT_TRACK_CHANGED captions1)] @
     [SetMode 1 Showing, SetOnCueChange 1 (Some EngineOnCueChange)]"
proof -
  have e: "trace (snd (Html5_selectTextTrack captions1
                 (fst (Html5_selectTextTrack subtitles0 demo_engine demo_world))
                 (snd (Html5_selectTextTrack subtitles0 demo_engine demo_world)))) =
   trace (snd (Html5_selectTextTrack subtitles0 demo_engine demo_world)) @
     [SetOnCueChange 0 None] @
     [SetMode 0 Disabled, SetMode 1 Disabled, SetMode 1 Hidden, Trigger (TEXT_TRACK_CHANGED captions1)] @
     [SetMode 1 Showing, SetOnCueChange 1 (Some EngineOnCueChange)]"
    by code_simp
  from selectTextTrack_order [where w = "snd (Html5_selectTextTrack subtitles0 demo_engine demo_world)"
      and t = captions1 and eng = "fst (Html5_selectTextTrack subtitles0 demo_engine demo_world)"] e
  show ?thesis by simp
qed

theorem selectTextTrack_native_counterexample:
  "trace (snd (Html5_selectTextTrack subtitles0 native_engine demo_world)) =
     [SetMode 0 Disabled, SetMode 1 Disabled, SetMode 0 Hidden,
      Trigger (TEXT_TRACK_CHANGED subtitles0), SetMode 0 Showing] \<and>
   map_option (map oncuechange) (textTracks (el (snd (Html5_selectTextTrack subtitles0 native_engine demo_world))))
     = Some [None, None]"
  by code_simp

subsection \<open>Selections that do nothing\<close>

text \<open>
  Claim C4, as amended. A selection call of the adapter changes nothing and emits nothing
  when its argument is not of the class the call expects, or its index is outside the list
  the call indexes (the progressive variants for a video track in progressive playback,
  else the element's video, audio or text track list), or, for a text track, its kind is
  neither subtitles nor captions.
\<close>

theorem invalid_selection_noop:
  "((\<forall>s. t \<noteq> VideoTrack s) \<or>
    \<not> in_bounds (index (track_settings t))
        (if isProgressivePlayback ad then map_option length (progressiveSources ad)
         else map_option length (videoTracks (el w)))
      \<longrightarrow> NativeAdapter_selectVideoTrack ev t ad w = (ad, w)) \<and>
   ((\<forall>s. t \<noteq> AudioTrack s) \<or>
    \<not> in_bounds (index (track_settings t)) (map_option length (audioTracks (el w)))
      \<longrightarrow> NativeAdapter_selectAudioTrack t w = w) \<and>
   ((\<forall>s. t \<noteq> PKTextTrack s) \<or>
    (kind (track_settings t) \<noteq> Some ''subtitles'' \<and> kind (track_settings t) \<noteq> Some ''captions'') \<or>
    \<not> in_bounds (index (track_settings t)) (map_option length (textTracks (el w)))
      \<longrightarrow> NativeAdapter_selectTextTrack t w = w)"
proof (intro conjI impI)
  assume "(\<forall>s. t \<noteq> VideoTrack s) \<or>
    \<not> in_bounds (index (track_settings t))
        (if isProgressivePlayback ad then map_option length (progressiveSources ad)
         else map_option length (videoTracks (el w)))"
  then show "NativeAdapter_selectVideoTrack ev t ad w = (ad, w)"
    by (cases t)
       (auto simp: NativeAdapter_selectVideoTrack_def item_at_def in_bounds_def
          split: option.splits if_splits)
next
  assume "(\<forall>s. t \<noteq> AudioTrack s) \<or>
    \<not> in_bounds (index (track_settings t)) (map_option length (audioTracks (el w)))"
  then show "NativeAdapter_selectAudioTrack t w = w"
    by (cases t) (auto simp: item_at_def in_bounds_def split: option.splits if_splits)
next
  assume "(\<forall>s. t \<noteq> PKTextTrack s) \<or>
    (kind (track_settings t) \<noteq> Some ''subtitles'' \<and> kind (track_settings t) \<noteq> Some ''captions'') \<or>
    \<not> in_bounds (index (track_settings t)) (map_option length (textTracks (el w)))"
  then show "NativeAdapter_selectTextTrack t w = w"
    by (cases t) (auto simp: item_at_def in_bounds_def split: option.splits if_splits)
qed

theorem invalid_selection_noop_witness:
  "NativeAdapter_selectVideoTrack desktop (VideoTrack (demo_track 2 None)) demo_adapter demo_world
     = (demo_adapter, demo_world) \<and>
   NativeAdapter_selectVideoTrack desktop (AudioTrack (demo_track 1 None)) demo_adapter demo_world
     = (demo_adapter, demo_world) \<and>
   NativeAdapter_selectAudioTrack (AudioTrack (demo_track (- 1) None)) demo_world = demo_world \<and>
   NativeAdapter_selectTextTrack (PKTextTrack (demo_track 1 (Some ''metadata''))) demo_world
     = demo_world \<and>
   NativeAdapter_selectTextTrack (PKTextTrack (demo_track 2 (Some ''captions''))) demo_world
     = demo_world"
  using invalid_selection_noop [of "VideoTrack (demo_track 2 None)" demo_adapter demo_world desktop]
    invalid_selection_noop [of "AudioTrack (demo_track 1 None)" demo_adapter demo_world desktop]
    invalid_selection_noop [of "AudioTrack (demo_track (- 1) None)" demo_adapter demo_world desktop]
    invalid_selection_noop [of "PKTextTrack (demo_track 1 (Some ''metadata''))" demo_adapter
      demo_world desktop]
    invalid_selection_noop [of "PKTextTrack (demo_track 2 (Some ''captions''))" demo_adapter
      demo_world desktop]
  by (simp add: in_bounds_def demo_track_def demo_adapter_def demo_world_def demo_element_def
      isProgressivePlayback_def src_low_def)

theorem progressive_selection_counterexample:
  "\<not> in_bounds 1 (map_option length (videoTracks (el demo_world))) \<and>
   sourceObj (fst (NativeAdapter_selectVideoTrack desktop variant1 demo_adapter demo_world))
     = Some src_high \<and>
   trace (snd (NativeAdapter_selectVideoTrack desktop variant1 demo_adapter demo_world))
     = [SetSrc ''high.mp4''] \<and>
   trace (snd (fire desktop SEEKED (fire desktop LOADED_DATA
            (NativeAdapter_selectVideoTrack desktop variant1 demo_adapter demo_world))))
     = [SetSrc ''high.mp4'', SetCurrentTime (Num 12.5), Play, Trigger (VIDEO_TRACK_CHANGED variant1)]"
  by code_simp

subsection \<open>load happens once\<close>

lemma frame_writes [simp]:
  "a \<noteq> Load \<Longrightarrow> frame (act a w) = frame w"
  "frame (set_src ev u w) = frame w"
  "frame (set_currentTime t w) = frame w"
  "frame (el_play w) = frame w"
  "frame (el_pause w) = frame w"
  "frame (trigger e w) = frame w"
  "frame (set_mode i m w) = frame w"
  "frame (set_oncuechange i h w) = frame w"
  "frame (set_selected i b w) = frame w"
  "frame (set_enabled i b w) = frame w"
  "frame (settle p r w) = frame w"
  by (simp_all add: frame_def platform_loads_def act_def set_src_def set_currentTime_def
      el_play_def el_pause_def trigger_def set_mode_def set_oncuechange_def set_selected_def
      set_enabled_def set_textTracks_def settle_def split: option.splits)

lemma frame_el_load [simp]:
  "frame (el_load ev w) = (fst (frame w), Suc (snd (frame w)))"
  by (simp add: frame_def platform_loads_def el_load_def act_def)

lemma frame_fold:
  "(\<And>i w. frame (f i w) = frame w) \<Longrightarrow> frame (fold f xs w) = frame w"
  by (induction xs arbitrary: w) simp_all

lemma frame_onTrackChanged [simp]: "frame (onTrackChanged t w) = frame w"
  by (cases t) simp_all

lemma frame_disable [simp]:
  "frame (disableVideoTracks w) = frame w"
  "frame (disableAudioTracks w) = frame w"
  "frame (disableTextTracks w) = frame w"
  by (simp_all add: disableVideoTracks_def disableAudioTracks_def disableTextTracks_def
      frame_fold split: option.splits)

lemma frame_selects [simp]:
  "frame (selectAdaptiveVideoTrack t w) = frame w"
  "frame (NativeAdapter_selectAudioTrack t w) = frame w"
  "frame (NativeAdapter_selectTextTrack t w) = frame w"
  "frame (NativeAdapter_hideTextTrack w) = frame w"
  by (cases t; simp add: NativeAdapter_hideTextTrack_def split: option.splits)+

lemma selectProgressive_keeps:
  "loadPromise (fst (selectProgressiveVideoTrack ev t ad w)) = loadPromise ad"
  "frame (snd (selectProgressiveVideoTrack ev t ad w)) = frame w"
  by (cases t; simp add: Let_def listenOnce_def split: option.splits)+

lemma selectVideoTrack_keeps:
  "loadPromise (fst (NativeAdapter_selectVideoTrack ev t ad w)) = loadPromise ad"
  "frame (snd (NativeAdapter_selectVideoTrack ev t ad w)) = frame w"
  by (simp_all add: NativeAdapter_selectVideoTrack_def selectProgressive_keeps)

lemma run_listener_keeps:
  "loadPromise (fst (run_listener ev e l st)) = loadPromise (fst st)"
  "frame (snd (run_listener ev e l st)) = frame (snd st)"
  by (cases l; cases st; simp add: Let_def listenOnce_def)+

lemma run_listeners_keep:
  "loadPromise (fst (fold (\<lambda>x. run_listener ev e (snd x)) ls st)) = loadPromise (fst st) \<and>
   frame (snd (fold (\<lambda>x. run_listener ev e (snd x)) ls st)) = frame (snd st)"
  by (induction ls arbitrary: st) (simp_all add: run_listener_keeps)

lemma fire_keeps:
  "loadPromise (fst (fire ev e st)) = loadPromise (fst st)"
  "frame (snd (fire ev e st)) = frame (snd st)"
  by (simp_all add: fire_def Let_def run_listeners_keep)

lemma load_first:
  assumes "loadPromise ad = None"
  shows "fst (NativeAdapter_load ev start ad w) = length (promises w)"
    "loadPromise (fst (snd (NativeAdapter_load ev start ad w))) = Some (length (promises w))"
    "promises (snd (snd (NativeAdapter_load ev start ad w))) = promises w @ [Pending]"
    "frame (snd (snd (NativeAdapter_load ev start ad w))) = (Suc (fst (frame w)), Suc (snd (frame w)))"
  using assms
  by (simp_all add: NativeAdapter_load_def Let_def frame_def platform_loads_def
      split: option.splits)

lemma load_again:
  "loadPromise ad = Some p \<Longrightarrow> NativeAdapter_load ev start ad w = (p, ad, w)"
  by (simp add: NativeAdapter_load_def)

lemma load_inv_step:
  assumes "load_inv p0 n0 st"
  shows "load_inv p0 n0 (adapter_step ev c st)"
proof -
  obtain hs ad w where st: "st = (hs, ad, w)" by (cases st)
  show ?thesis
  proof (cases c)
    case (DoLoad start)
    show ?thesis
    proof (cases "loadPromise ad")
      case None
      with assms st DoLoad show ?thesis
        using load_first [OF None, of ev start w]
        by (auto simp: load_inv_def Let_def frame_def split: prod.splits)
    next
      case (Some p)
      with assms st DoLoad show ?thesis
        by (auto simp: load_inv_def Let_def load_again)
    qed
  next
    case (DoSelectVideoTrack t)
    with assms st show ?thesis
      using selectVideoTrack_keeps [of ev t ad w]
      by (auto simp: load_inv_def split: prod.splits option.splits)
  next
    case (Fires e)
    with assms st show ?thesis
      using fire_keeps [of ev e "(ad, w)"]
      by (auto simp: load_inv_def split: prod.splits option.splits)
  qed (use assms st in \<open>auto simp: load_inv_def split: option.splits\<close>)
qed

lemma load_inv_run:
  "load_inv p0 n0 st \<Longrightarrow> load_inv p0 n0 (fold (adapter_step ev) calls st)"
  by (induction calls arbitrary: st) (simp_all add: load_inv_step)

text \<open>
  Claim C1. On an adapter without a load promise, \<open>load\<close> returns a fresh pending promise
  and keeps it. Through any run of calls and signals that starts there, every \<open>load\<close>
  returns that same promise and the element's \<open>load()\<close> is called once, by the first
  \<open>load\<close>, and never again. A \<open>load\<close> on an adapter that holds a promise returns it and
  changes nothing.
\<close>

theorem load_memoized:
  assumes "loadPromise ad = None"
  shows "fst (NativeAdapter_load ev start ad w) = length (promises w) \<and>
    promises (snd (snd (NativeAdapter_load ev start ad w))) = promises w @ [Pending] \<and>
    loadPromise (fst (snd (NativeAdapter_load ev start ad w))) = Some (length (promises w)) \<and>
    (\<forall>calls hs ad' w'. fold (adapter_step ev) calls ([], ad, w) = (hs, ad', w') \<longrightarrow>
        set hs \<subseteq> {length (promises w)} \<and>
        platform_loads w' = platform_loads w + (if hs = [] then 0 else 1) \<and>
        (hs \<noteq> [] \<longrightarrow> loadPromise ad' = Some (length (promises w)))) \<and>
    (\<forall>p ad2 w2 start2. loadPromise ad2 = Some p \<longrightarrow>
        NativeAdapter_load ev start2 ad2 w2 = (p, ad2, w2))"
proof -
  have init: "load_inv (length (promises w)) (platform_loads w) ([], ad, w)"
    using assms by (simp add: load_inv_def frame_def)
  have run: "\<forall>calls hs ad' w'. fold (adapter_step ev) calls ([], ad, w) = (hs, ad', w') \<longrightarrow>
        set hs \<subseteq> {length (promises w)} \<and>
        platform_loads w' = platform_loads w + (if hs = [] then 0 else 1) \<and>
        (hs \<noteq> [] \<longrightarrow> loadPromise ad' = Some (length (promises w)))"
  proof (intro allI impI)
    fix calls hs ad' w'
    assume r: "fold (adapter_step ev) calls ([], ad, w) = (hs, ad', w')"
    from load_inv_run [OF init, of ev calls] r
    have "load_inv (length (promises w)) (platform_loads w) (hs, ad', w')" by simp
    then show "set hs \<subseteq> {length (promises w)} \<and>
        platform_loads w' = platform_loads w + (if hs = [] then 0 else 1) \<and>
        (hs \<noteq> [] \<longrightarrow> loadPromise ad' = Some (length (promises w)))"
      by (auto simp: load_inv_def frame_def split: option.splits)
  qed
  from load_first [OF assms, of ev start w] run load_again show ?thesis
    by blast
qed

theorem load_memoized_witness:
  "fst (fold (adapter_step desktop)
          [DoLoad (Some (Num 3)), Fires LOADED_DATA, DoLoad None, DoSelectVideoTrack variant1,
           DoLoad None]
          ([], demo_adapter, demo_world)) = [0, 0, 0] \<and>
   platform_loads (snd (snd (fold (adapter_step desktop)
          [DoLoad (Some (Num 3)), Fires LOADED_DATA, DoLoad None, DoSelectVideoTrack variant1,
           DoLoad None]
          ([], demo_adapter, demo_world)))) = 1"
proof -
  have h: "loadPromise demo_adapter = None" by (simp add: demo_adapter_def)
  have e: "fst (fold (adapter_step desktop)
          [DoLoad (Some (Num 3)), Fires LOADED_DATA, DoLoad None, DoSelectVideoTrack variant1,
           DoLoad None]
          ([], demo_adapter, demo_world)) = [0, 0, 0]"
    by code_simp
  have p: "platform_loads demo_world = 0" "length (promises demo_world) = 0"
    by (simp_all add: platform_loads_def demo_world_def)
  from load_memoized [OF h, of desktop None demo_world]
  have "\<forall>calls hs ad' w'. fold (adapter_step desktop) calls ([], demo_adapter, demo_world) = (hs, ad', w') \<longrightarrow>
        set hs \<subseteq> {length (promises demo_world)} \<and>
        platform_loads w' = platform_loads demo_world + (if hs = [] then 0 else 1) \<and>
        (hs \<noteq> [] \<longrightarrow> loadPromise ad' = Some (length (promises demo_world)))"
    by blast
  then have all: "\<And>calls hs ad' w'.
        fold (adapter_step desktop) calls ([], demo_adapter, demo_world) = (hs, ad', w') \<Longrightarrow>
        platform_loads w' = platform_loads demo_world + (if hs = [] then 0 else 1)"
    by blast
  define R where "R = fold (adapter_step desktop)
          [DoLoad (Some (Num 3)), Fires LOADED_DATA, DoLoad None, DoSelectVideoTrack variant1,
           DoLoad None]
          ([], demo_adapter, demo_world)"
  have Req: "fold (adapter_step desktop)
          [DoLoad (Some (Num 3)), Fires LOADED_DATA, DoLoad None, DoSelectVideoTrack variant1,
           DoLoad None]
          ([], demo_adapter, demo_world) = (fst R, fst (snd R), snd (snd R))"
    unfolding R_def [symmetric] by simp
  from all [OF Req]
  have "platform_loads (snd (snd R)) = platform_loads demo_world + (if fst R = [] then 0 else 1)" .
  with e p show ?thesis
    by (simp add: R_def)
qed

subsection \<open>Switching the progressive variant\<close>

lemma settle_outside [simp]: "el (settle p r w) = el w" "trace (settle p r w) = trace w"
  by (simp_all add: settle_def)

lemma run_load_listener:
  "is_load_listener l \<Longrightarrow>
   fst (run_listener ev e l (ad, w)) = ad \<and>
   el (snd (run_listener ev e l (ad, w))) = el w \<and>
   trace (snd (run_listener ev e l (ad, w))) = trace w"
  by (cases l) (simp_all add: is_load_listener_def)

lemma run_load_listeners:
  "list_all (\<lambda>x. is_load_listener (snd x)) ls \<Longrightarrow>
   fst (fold (\<lambda>x. run_listener ev e (snd x)) ls (ad, w)) = ad \<and>
   el (snd (fold (\<lambda>x. run_listener ev e (snd x)) ls (ad, w))) = el w \<and>
   trace (snd (fold (\<lambda>x. run_listener ev e (snd x)) ls (ad, w))) = trace w"
proof (induction ls arbitrary: w)
  case Nil
  then show ?case by simp
next
  case (Cons x xs)
  obtain w1 where r: "run_listener ev e (snd x) (ad, w) = (ad, w1)" "el w1 = el w" "trace w1 = trace w"
    using run_load_listener [of "snd x" ev e ad w] Cons.prems
    by (cases "run_listener ev e (snd x) (ad, w)") auto
  from Cons.IH [of w1] Cons.prems r show ?case by simp
qed

lemma fire_switch:
  assumes ls: "listeners ad = ls @ (e, l) # ms"
    and q: "list_all (\<lambda>x. is_load_listener (snd x)) ls"
    and ms: "list_all (\<lambda>x. fst x \<noteq> e) ms"
  shows "\<exists>w1. el w1 = el w \<and> trace w1 = trace w \<and>
           fire ev e (ad, w) =
             run_listener ev e l (ad\<lparr>listeners := filter (\<lambda>x. fst x \<noteq> e) ls @ ms\<rparr>, w1)"
proof -
  have ms1: "filter (\<lambda>x. fst x = e) ms = []" "filter (\<lambda>x. fst x \<noteq> e) ms = ms"
    using ms by (auto simp: list_all_iff filter_empty_conv filter_id_conv)
  define ad1 where "ad1 = ad\<lparr>listeners := filter (\<lambda>x. fst x \<noteq> e) ls @ ms\<rparr>"
  define due where "due = filter (\<lambda>x. fst x = e) ls"
  have qd: "list_all (\<lambda>x. is_load_listener (snd x)) due"
    using q by (auto simp: due_def list_all_iff)
  obtain w1 where w1: "fold (\<lambda>x. run_listener ev e (snd x)) due (ad1, w) = (ad1, w1)"
      "el w1 = el w" "trace w1 = trace w"
    using run_load_listeners [OF qd, of ev e ad1 w]
    by (cases "fold (\<lambda>x. run_listener ev e (snd x)) due (ad1, w)") auto
  have "fire ev e (ad, w) = run_listener ev e l (ad1, w1)"
    by (simp add: fire_def Let_def ls ms1 ad1_def [symmetric] due_def [symmetric] w1)
  with w1 show ?thesis unfolding ad1_def by blast
qed


lemma select_progressive_valid:
  assumes prog: "isProgressivePlayback ad" and vs: "progressiveSources ad = Some vs"
    and lo: "0 \<le> index s" and hi: "index s < int (length vs)"
  shows "NativeAdapter_selectVideoTrack ev (VideoTrack s) ad w =
           (ad\<lparr>sourceObj := Some (vs ! nat (index s)),
               listeners := listeners ad @
                 [(LOADED_DATA, SwitchLoadedData (VideoTrack s) (currentTime (el w)) (paused (el w)))]\<rparr>,
            set_src ev (url (vs ! nat (index s))) w)"
  using assms
  by (simp add: NativeAdapter_selectVideoTrack_def item_at_def Let_def listenOnce_def)

text \<open>
  Claim C2, as amended. A progressive \<open>selectVideoTrack\<close> on a video track within the
  variant list, with no other switch under way, captures position and paused state and
  then rebinds the URL. On loaded-data the Android browser gets \<open>play()\<close>, the position on
  duration-change, and on seeked the event and, for a paused element, \<open>pause()\<close>; any other
  browser gets the position at once, \<open>play()\<close> at once for a playing element, and on
  seeked the event alone. At the end the position is the captured one, a playing element
  plays, and a paused element is paused (elsewhere than Android: if rebinding left it
  paused).
\<close>

theorem progressive_switch:
  assumes prog: "isProgressivePlayback ad" and vs: "progressiveSources ad = Some vs"
    and lo: "0 \<le> index s" and hi: "index s < int (length vs)"
    and idle: "no_switch_pending ad"
  shows
   "let t = VideoTrack s; ct = currentTime (el w); pz = paused (el w);
        so = vs ! nat (index s);
        st0 = NativeAdapter_selectVideoTrack ev t ad w;
        st1 = fire ev LOADED_DATA st0
    in sourceObj (fst st0) = Some so \<and>
       listeners (fst st0) = listeners ad @ [(LOADED_DATA, SwitchLoadedData t ct pz)] \<and>
       trace (snd st0) = trace w @ [SetSrc (url so)] \<and>
       (if browser_name ev = ''Android Browser''
        then (let st2 = fire ev DURATION_CHANGE st1; st3 = fire ev SEEKED st2
              in trace (snd st1) = trace (snd st0) @ [Play] \<and>
                 trace (snd st2) = trace (snd st1) @ [SetCurrentTime ct] \<and>
                 trace (snd st3) =
                   trace (snd st2) @ Trigger (VIDEO_TRACK_CHANGED t) # (if pz then [Pause] else []) \<and>
                 currentTime (el (snd st3)) = ct \<and>
                 paused (el (snd st3)) = pz)
        else (let st2 = fire ev SEEKED st1
              in trace (snd st1) =
                   trace (snd st0) @ SetCurrentTime ct # (if pz then [] else [Play]) \<and>
                 trace (snd st2) = trace (snd st1) @ [Trigger (VIDEO_TRACK_CHANGED t)] \<and>
                 currentTime (el (snd st2)) = ct \<and>
                 (\<not> pz \<longrightarrow> \<not> paused (el (snd st2))) \<and>
                 (pz \<and> paused (reload ev ((el w)\<lparr>src := url so\<rparr>)) \<longrightarrow> paused (el (snd st2)))))"
proof -
  define t where "t = VideoTrack s"
  define ct where "ct = currentTime (el w)"
  define pz where "pz = paused (el w)"
  define so where "so = vs ! nat (index s)"
  define ad0 where "ad0 = ad\<lparr>sourceObj := Some so,
      listeners := listeners ad @ [(LOADED_DATA, SwitchLoadedData t ct pz)]\<rparr>"
  define w0 where "w0 = set_src ev (url so) w"
  define st0 where "st0 = NativeAdapter_selectVideoTrack ev t ad w"
  have st0: "st0 = (ad0, w0)"
    unfolding st0_def t_def ad0_def w0_def so_def ct_def pz_def
    by (rule select_progressive_valid [OF prog vs lo hi])
  have q: "list_all (\<lambda>x. is_load_listener (snd x)) (listeners ad)"
    using idle by (simp add: no_switch_pending_def)
  define keep where "keep = filter (\<lambda>x. fst x \<noteq> LOADED_DATA) (listeners ad)"
  have qk: "list_all (\<lambda>x. is_load_listener (snd x)) keep"
    using q by (auto simp: keep_def list_all_iff)
  have l0: "listeners ad0 = listeners ad @ (LOADED_DATA, SwitchLoadedData t ct pz) # []"
    by (simp add: ad0_def)
  from fire_switch [OF l0 q, of w0 ev] obtain w1 where
    w1: "el w1 = el w0" "trace w1 = trace w0"
      "fire ev LOADED_DATA (ad0, w0) =
         run_listener ev LOADED_DATA (SwitchLoadedData t ct pz) (ad0\<lparr>listeners := keep\<rparr>, w1)"
    by (auto simp: keep_def)
  have base: "sourceObj (fst st0) = Some so \<and>
       listeners (fst st0) = listeners ad @ [(LOADED_DATA, SwitchLoadedData t ct pz)] \<and>
       trace (snd st0) = trace w @ [SetSrc (url so)]"
    by (simp add: st0 ad0_def w0_def)
  have rest: "if browser_name ev = ''Android Browser''
        then (let st2 = fire ev DURATION_CHANGE (fire ev LOADED_DATA st0); st3 = fire ev SEEKED st2
              in trace (snd (fire ev LOADED_DATA st0)) = trace (snd st0) @ [Play] \<and>
                 trace (snd st2) = trace (snd (fire ev LOADED_DATA st0)) @ [SetCurrentTime ct] \<and>
                 trace (snd st3) =
                   trace (snd st2) @ Trigger (VIDEO_TRACK_CHANGED t) # (if pz then [Pause] else []) \<and>
                 currentTime (el (snd st3)) = ct \<and>
                 paused (el (snd st3)) = pz)
        else (let st2 = fire ev SEEKED (fire ev LOADED_DATA st0)
              in trace (snd (fire ev LOADED_DATA st0)) =
                   trace (snd st0) @ SetCurrentTime ct # (if pz then [] else [Play]) \<and>
                 trace (snd st2) = trace (snd (fire ev LOADED_DATA st0)) @ [Trigger (VIDEO_TRACK_CHANGED t)] \<and>
                 currentTime (el (snd st2)) = ct \<and>
                 (\<not> pz \<longrightarrow> \<not> paused (el (snd st2))) \<and>
                 (pz \<and> paused (reload ev ((el w)\<lparr>src := url so\<rparr>)) \<longrightarrow> paused (el (snd st2))))"
  proof (cases "browser_name ev = ''Android Browser''")
    case True
    define ad1 where "ad1 = ad0\<lparr>listeners := keep @
        [(DURATION_CHANGE, SwitchDurationChange ct), (SEEKED, SwitchSeekedAndroid t pz)]\<rparr>"
    have s1: "fire ev LOADED_DATA st0 = (ad1, el_play w1)"
      using True by (simp add: st0 w1(3) listenOnce_def ad1_def)
    have l1: "listeners ad1 = keep @ (DURATION_CHANGE, SwitchDurationChange ct) #
                [(SEEKED, SwitchSeekedAndroid t pz)]"
      by (simp add: ad1_def)
    define keep2 where "keep2 = filter (\<lambda>x. fst x \<noteq> DURATION_CHANGE) keep"
    have qk2: "list_all (\<lambda>x. is_load_listener (snd x)) keep2"
      using qk by (auto simp: keep2_def list_all_iff)
    from fire_switch [OF l1 qk, of "el_play w1" ev] obtain w2 where
      w2: "el w2 = el (el_play w1)" "trace w2 = trace (el_play w1)"
        "fire ev DURATION_CHANGE (ad1, el_play w1) =
           run_listener ev DURATION_CHANGE (SwitchDurationChange ct)
             (ad1\<lparr>listeners := keep2 @ [(SEEKED, SwitchSeekedAndroid t pz)]\<rparr>, w2)"
      by (auto simp: keep2_def)
    define ad2 where "ad2 = ad1\<lparr>listeners := keep2 @ [(SEEKED, SwitchSeekedAndroid t pz)]\<rparr>"
    have s2: "fire ev DURATION_CHANGE (ad1, el_play w1) = (ad2, set_currentTime ct w2)"
      by (simp add: w2(3) ad2_def)
    have l2: "listeners ad2 = keep2 @ (SEEKED, SwitchSeekedAndroid t pz) # []"
      by (simp add: ad2_def)
    from fire_switch [OF l2 qk2, of "set_currentTime ct w2" ev] obtain w3 where
      w3: "el w3 = el (set_currentTime ct w2)" "trace w3 = trace (set_currentTime ct w2)"
        "fire ev SEEKED (ad2, set_currentTime ct w2) =
           run_listener ev SEEKED (SwitchSeekedAndroid t pz)
             (ad2\<lparr>listeners := filter (\<lambda>x. fst x \<noteq> SEEKED) keep2\<rparr>, w3)"
      by auto
    have s3: "fire ev SEEKED (ad2, set_currentTime ct w2) =
                (ad2\<lparr>listeners := filter (\<lambda>x. fst x \<noteq> SEEKED) keep2\<rparr>,
                 if pz then el_pause (onTrackChanged t w3) else onTrackChanged t w3)"
      by (simp add: w3(3) Let_def)
    have tr0: "trace (snd st0) = trace w0" by (simp add: st0)
    show ?thesis
      using True
      by (simp add: Let_def s3 s2 s1 tr0 w3(1,2) w2(1,2) w1(1,2) t_def)
  next
    case False
    define ad1 where "ad1 = ad0\<lparr>listeners := keep @ [(SEEKED, SwitchSeeked t)]\<rparr>"
    define w1' where "w1' = (if pz then set_currentTime ct w1 else el_play (set_currentTime ct w1))"
    have s1: "fire ev LOADED_DATA st0 = (ad1, w1')"
      using False by (simp add: st0 w1(3) listenOnce_def ad1_def w1'_def Let_def)
    have l1: "listeners ad1 = keep @ (SEEKED, SwitchSeeked t) # []"
      by (simp add: ad1_def)
    from fire_switch [OF l1 qk, of w1' ev] obtain w2 where
      w2: "el w2 = el w1'" "trace w2 = trace w1'"
        "fire ev SEEKED (ad1, w1') =
           run_listener ev SEEKED (SwitchSeeked t)
             (ad1\<lparr>listeners := filter (\<lambda>x. fst x \<noteq> SEEKED) keep\<rparr>, w2)"
      by auto
    have s2: "fire ev SEEKED (ad1, w1') =
                (ad1\<lparr>listeners := filter (\<lambda>x. fst x \<noteq> SEEKED) keep\<rparr>, onTrackChanged t w2)"
      by (simp add: w2(3))
    have tr0: "trace (snd st0) = trace w0" by (simp add: st0)
    have o1: "trace w1' = trace w0 @ SetCurrentTime ct # (if pz then [] else [Play])"
      "currentTime (el w1') = ct" "paused (el w1') = (pz \<and> paused (el w0))"
      by (simp_all add: w1'_def w1(1,2))
    have e0: "el w0 = reload ev ((el w)\<lparr>src := url so\<rparr>)"
      by (simp add: w0_def)
    show ?thesis
      using False
      by (simp add: Let_def s2 s1 tr0 w2(1,2) o1 e0 t_def)
  qed
  from base rest show ?thesis
    unfolding Let_def st0_def [symmetric] t_def [symmetric] ct_def [symmetric]
        pz_def [symmetric] so_def [symmetric]
    by (simp split: if_splits)
qed

theorem progressive_switch_witness:
  "trace (snd (fire desktop SEEKED (fire desktop LOADED_DATA
      (NativeAdapter_selectVideoTrack desktop variant1 busy_adapter busy_world)))) =
     [SetSrc ''high.mp4'', SetCurrentTime (Num 12.5), Play, Trigger (VIDEO_TRACK_CHANGED variant1)] \<and>
   \<not> paused (el (snd (fire desktop SEEKED (fire desktop LOADED_DATA
      (NativeAdapter_selectVideoTrack desktop variant1 busy_adapter busy_world))))) \<and>
   trace (snd (fire desktop SEEKED (fire desktop LOADED_DATA
      (NativeAdapter_selectVideoTrack desktop variant1 busy_adapter paused_world)))) =
     [SetSrc ''high.mp4'', SetCurrentTime (Num 12.5), Trigger (VIDEO_TRACK_CHANGED variant1)] \<and>
   paused (el (snd (fire desktop SEEKED (fire desktop LOADED_DATA
      (NativeAdapter_selectVideoTrack desktop variant1 busy_adapter paused_world))))) \<and>
   trace (snd (fire android SEEKED (fire android DURATION_CHANGE (fire android LOADED_DATA
      (NativeAdapter_selectVideoTrack android variant1 busy_adapter paused_world))))) =
     [SetSrc ''high.mp4'', Play, SetCurrentTime (Num 12.5), Trigger (VIDEO_TRACK_CHANGED variant1),
      Pause] \<and>
   paused (el (snd (fire android SEEKED (fire android DURATION_CHANGE (fire android LOADED_DATA
      (NativeAdapter_selectVideoTrack android variant1 busy_adapter paused_world))))))"
proof -
  have h: "isProgressivePlayback busy_adapter"
    "progressiveSources busy_adapter = Some [src_low, src_high]"
    "0 \<le> index (demo_track 1 None)"
    "index (demo_track 1 None) < int (length [src_low, src_high])"
    "no_switch_pending busy_adapter"
    by (simp_all add: busy_adapter_def demo_adapter_def isProgressivePlayback_def src_low_def
        demo_track_def no_switch_pending_def is_load_listener_def)
  have v: "browser_name desktop \<noteq> ''Android Browser''" "browser_name android = ''Android Browser''"
    "reload desktop = (\<lambda>v. v\<lparr>paused := True, currentTime := Num 0\<rparr>)"
    by (simp_all add: desktop_def android_def)
  have w: "trace busy_world = []" "trace paused_world = []"
    "currentTime (el busy_world) = Num 12.5" "currentTime (el paused_world) = Num 12.5"
    "\<not> paused (el busy_world)" "paused (el paused_world)"
    by (simp_all add: busy_world_def paused_world_def demo_world_def demo_element_def)
  have u: "url ([src_low, src_high] ! nat (index (demo_track 1 None))) = ''high.mp4''"
    by (simp add: demo_track_def src_high_def)
  from progressive_switch [OF h, where ev = desktop and w = busy_world]
       progressive_switch [OF h, where ev = desktop and w = paused_world]
       progressive_switch [OF h, where ev = android and w = paused_world]
  show ?thesis
    by (simp add: Let_def v w u variant1_def)
qed

theorem restored_before_seeked_counterexample:
  "trace (snd (fire desktop LOADED_DATA
      (NativeAdapter_selectVideoTrack desktop variant1 demo_adapter demo_world))) =
     [SetSrc ''high.mp4'', SetCurrentTime (Num 12.5), Play] \<and>
   listeners (fst (fire desktop LOADED_DATA
      (NativeAdapter_selectVideoTrack desktop variant1 demo_adapter demo_world))) =
     [(SEEKED, SwitchSeeked variant1)]"
  by code_simp

end
